theory Spec2Isabelle
  imports Main "HOL-Library.Word" "HOL-Library.Sublist"
begin

unbundle bit_operations_syntax

section \<open>JavaScript values\<close>

text \<open>
  Filament-Sync reads slicer presets and printer documents as JSON and works on them
  with duck-typed JavaScript. The values are modelled by one tagged type. An object is
  an association list in insertion order; \<open>undefined\<close> is a value of its own, since
  reading a missing property yields it. A number is a double. One that is an integer of
  absolute value at most \<open>2^53\<close> is \<open>Num\<close> of that integer (zero of either sign is
  \<open>Num 0\<close>, the program tells them apart nowhere). Every other double, that is a
  fraction, an integer beyond \<open>2^53\<close> or an infinity, is \<open>Flt\<close> of the text that
  JavaScript prints for it, which determines the double; the program computes no number
  that is not an integer, so such a number comes from a JSON text only, and \<open>NaN\<close>
  never arises. Strings are lists of code units below 256, so \<open>charCodeAt\<close> is the
  code of a \<^typ>\<open>char\<close>.
\<close>

datatype jsval =
    Undefined
  | Null
  | Bool bool
  | Num int
  | Flt string
  | Str string
  | Arr "jsval list"
  | Obj "(string \<times> jsval) list"

type_synonym jsobj = "(string \<times> jsval) list"

text \<open>Truthiness, as \<open>!v\<close>, \<open>a || b\<close> and \<open>a && b\<close> test it.\<close>

fun truthy :: "jsval \<Rightarrow> bool" where
  "truthy Undefined = False"
| "truthy Null = False"
| "truthy (Bool b) = b"
| "truthy (Num n) = (n \<noteq> 0)"
| "truthy (Flt t) = True"
| "truthy (Str s) = (s \<noteq> [])"
| "truthy (Arr xs) = True"
| "truthy (Obj kvs) = True"

text \<open>\<open>a || b\<close> and \<open>a ?? b\<close>.\<close>

definition js_or :: "jsval \<Rightarrow> jsval \<Rightarrow> jsval" where
  "js_or a b = (if truthy a then a else b)"

fun nullish :: "jsval \<Rightarrow> bool" where
  "nullish Undefined = True"
| "nullish Null = True"
| "nullish v = False"

definition nullish_or :: "jsval \<Rightarrow> jsval \<Rightarrow> jsval" where
  "nullish_or a b = (if nullish a then b else a)"

fun isArray :: "jsval \<Rightarrow> bool" where
  "isArray (Arr xs) = True"
| "isArray v = False"

fun is_string :: "jsval \<Rightarrow> bool" where
  "is_string (Str s) = True"
| "is_string v = False"

text \<open>
  Property access. \<open>obj_get\<close> reads a key of an object's entries, \<open>obj_set\<close> is the
  assignment \<open>o[k] = v\<close>: an existing key keeps its place, a new key goes last.
  \<open>prop_get\<close> is \<open>v?.k\<close> for the property names the program reads (none of them
  is \<open>length\<close> or an index, so only an object can have one).
\<close>

fun obj_get :: "jsobj \<Rightarrow> string \<Rightarrow> jsval" where
  "obj_get [] k = Undefined"
| "obj_get ((k', v) # kvs) k = (if k' = k then v else obj_get kvs k)"

fun obj_set :: "jsobj \<Rightarrow> string \<Rightarrow> jsval \<Rightarrow> jsobj" where
  "obj_set [] k v = [(k, v)]"
| "obj_set ((k', v') # kvs) k v = (if k' = k then (k, v) # kvs else (k', v') # obj_set kvs k v)"

fun prop_get :: "jsval \<Rightarrow> string \<Rightarrow> jsval" where
  "prop_get (Obj kvs) k = obj_get kvs k"
| "prop_get v k = Undefined"

text \<open>\<open>v[0]\<close> of an array, and \<open>Array.isArray(v) ? v[0] : v\<close>.\<close>

fun first_elem :: "jsval list \<Rightarrow> jsval" where
  "first_elem [] = Undefined"
| "first_elem (x # xs) = x"

fun unwrapFirst :: "jsval \<Rightarrow> jsval" where
  "unwrapFirst (Arr xs) = first_elem xs"
| "unwrapFirst v = v"

subsection \<open>Strings\<close>

definition digit_char :: "nat \<Rightarrow> char" where
  "digit_char d = char_of (48 + d)"

definition digit_val :: "char \<Rightarrow> nat" where
  "digit_val c = of_char c - 48"

definition is_digit :: "char \<Rightarrow> bool" where
  "is_digit c = (48 \<le> (of_char c :: nat) \<and> (of_char c :: nat) \<le> 57)"

text \<open>Decimal digits of a natural number, most significant first.\<close>

function dec_nat :: "nat \<Rightarrow> string" where
  "dec_nat n = (if n < 10 then [digit_char n] else dec_nat (n div 10) @ [digit_char (n mod 10)])"
  by pat_completeness auto
termination
  by (relation "measure id") auto

declare dec_nat.simps [simp del]

definition dec_int :: "int \<Rightarrow> string" where
  "dec_int i = (if i < 0 then CHR ''-'' # dec_nat (nat (- i)) else dec_nat (nat i))"

fun join_with :: "string \<Rightarrow> string list \<Rightarrow> string" where
  "join_with sep [] = []"
| "join_with sep [x] = x"
| "join_with sep (x # y # ys) = x @ sep @ join_with sep (y # ys)"

text \<open>
  \<open>String(v)\<close>, which template literals apply too. An array is its elements joined by
  commas, with \<open>null\<close> and \<open>undefined\<close> elements left empty.
\<close>

fun js_String :: "jsval \<Rightarrow> string" where
  "js_String Undefined = ''undefined''"
| "js_String Null = ''null''"
| "js_String (Bool b) = (if b then ''true'' else ''false'')"
| "js_String (Num n) = dec_int n"
| "js_String (Flt t) = t"
| "js_String (Str s) = s"
| "js_String (Arr xs) = join_with '','' (map (\<lambda>x. if nullish x then [] else js_String x) xs)"
| "js_String (Obj kvs) = ''[object Object]''"

text \<open>
  \<open>trim\<close> strips the white space of JavaScript that lies below 256: tab, line feed,
  vertical tab, form feed, carriage return, space and no-break space.
\<close>

definition is_js_space :: "char \<Rightarrow> bool" where
  "is_js_space c = ((of_char c :: nat) \<in> {9, 10, 11, 12, 13, 32, 160})"

definition js_trim :: "string \<Rightarrow> string" where
  "js_trim s = rev (dropWhile is_js_space (rev (dropWhile is_js_space s)))"

text \<open>
  \<open>toLowerCase\<close> on code units below 256: the ASCII capitals and the Latin-1 capitals
  (\<open>0xC0\<close> to \<open>0xDE\<close> apart from the multiplication sign) move up by 32.
  \<open>toUpperCase\<close> is given for ASCII only: the program applies it to a match of
  \<open>[a-z0-9_]+\<close>.
\<close>

definition lower_char :: "char \<Rightarrow> char" where
  "lower_char c =
     (let n = (of_char c :: nat)
      in if (65 \<le> n \<and> n \<le> 90) \<or> (192 \<le> n \<and> n \<le> 222 \<and> n \<noteq> 215) then char_of (n + 32) else c)"

definition upper_char :: "char \<Rightarrow> char" where
  "upper_char c =
     (let n = (of_char c :: nat) in if 97 \<le> n \<and> n \<le> 122 then char_of (n - 32) else c)"

definition toLowerCase :: "string \<Rightarrow> string" where
  "toLowerCase s = map lower_char s"

definition toUpperCase :: "string \<Rightarrow> string" where
  "toUpperCase s = map upper_char s"

section \<open>Identity derivation (tools/config.js)\<close>

subsection \<open>The stable five-digit id\<close>

text \<open>
  \<open>h\<close> is a JavaScript number. \<open>h ^= c\<close> and \<open>Math.imul\<close> convert their operands to
  32-bit integers and return a signed 32-bit result; the start value \<open>0x811c9dc5\<close> is
  the positive number 2166136261, and stays so when the string is empty.
\<close>

definition xor32 :: "int \<Rightarrow> int \<Rightarrow> int" where
  "xor32 a b = sint ((word_of_int a :: 32 word) XOR word_of_int b)"

definition imul :: "int \<Rightarrow> int \<Rightarrow> int" where
  "imul a b = sint ((word_of_int a :: 32 word) * word_of_int b)"

definition charCode :: "char \<Rightarrow> int" where
  "charCode c = int (of_char c)"

definition hash_round :: "int \<Rightarrow> char \<Rightarrow> int" where
  "hash_round h c = imul (xor32 h (charCode c)) 0x01000193"

definition hash_loop :: "string \<Rightarrow> int" where
  "hash_loop str = foldl hash_round 0x811c9dc5 str"

definition stableFiveDigitId :: "jsval \<Rightarrow> string" where
  "stableFiveDigitId s =
     (let str = js_String (nullish_or s (Str []));
          h = hash_loop str;
          ident = (\<bar>h\<bar> mod 90000) + 10000
      in js_String (Num ident))"

text \<open>
  The 32-bit FNV-1a hash as it is published: offset basis 2166136261, and for every
  octet an exclusive or followed by a multiplication by the prime 16777619, modulo
  \<open>2^32\<close>.
\<close>

definition fnv1a32 :: "string \<Rightarrow> 32 word" where
  "fnv1a32 str = foldl (\<lambda>w c. (w XOR of_nat (of_char c)) * 16777619) 2166136261 str"

subsection \<open>The type named by the inheritance reference\<close>

text \<open>
  \<open>s.match(/fdm_filament_([a-z0-9_]+)/)\<close>: the leftmost place where the literal is
  followed by at least one character of the class, and there the longest run of such
  characters (the group is greedy and nothing follows it in the pattern).
\<close>

definition is_type_char :: "char \<Rightarrow> bool" where
  "is_type_char c =
     (let n = (of_char c :: nat)
      in (97 \<le> n \<and> n \<le> 122) \<or> (48 \<le> n \<and> n \<le> 57) \<or> n = 95)"

fun match_fdm_filament :: "string \<Rightarrow> string option" where
  "match_fdm_filament [] = None"
| "match_fdm_filament (c # cs) =
     (if prefix ''fdm_filament_'' (c # cs) \<and> takeWhile is_type_char (drop 13 (c # cs)) \<noteq> []
      then Some (takeWhile is_type_char (drop 13 (c # cs)))
      else match_fdm_filament cs)"

definition deriveTypeFromInherits :: "jsval \<Rightarrow> string" where
  "deriveTypeFromInherits inherits =
     (let s = toLowerCase (js_String (nullish_or inherits (Str [])))
      in case match_fdm_filament s of None \<Rightarrow> [] | Some g \<Rightarrow> toUpperCase g)"

section \<open>JSON text\<close>

subsection \<open>Number literals\<close>

text \<open>
  A number literal of JSON, \<open>-? (0 | [1-9][0-9]*) (. [0-9]+)? ([eE] [+-]? [0-9]+)?\<close>, denotes
  the decimal \<open>m * 10^e\<close>, \<open>m\<close> being its digits without the point; its value in
  JavaScript is the double nearest to that decimal, ties going to the even significand.
  \<open>round_double num den\<close> is that double for the positive rational \<open>num / den\<close>, as a
  significand \<open>q\<close> of at most 53 bits and an exponent \<open>u\<close> of at least \<open>-1074\<close>, the
  double being \<open>q * 2^u\<close>; an exponent above 971 is an overflow to infinity.
\<close>

definition pow2 :: "int \<Rightarrow> int" where
  "pow2 k = 2 ^ nat k"

definition pow10 :: "int \<Rightarrow> int" where
  "pow10 k = 10 ^ nat k"

text \<open>The integer logarithm: the greatest \<open>l\<close> with \<open>b^l \<le> n\<close>, for \<open>1 \<le> n\<close> and \<open>2 \<le> b\<close>.\<close>

function floor_log :: "int \<Rightarrow> int \<Rightarrow> int" where
  "floor_log b n = (if n < b \<or> b < 2 then 0 else 1 + floor_log b (n div b))"
  by pat_completeness auto
termination
  by (relation "measure (\<lambda>(b, n). nat n)") (auto simp: int_div_less_self)

declare floor_log.simps [simp del]

function digits_of :: "int \<Rightarrow> string" where
  "digits_of n =
     (if n < 10 then [digit_char (nat n)] else digits_of (n div 10) @ [digit_char (nat (n mod 10))])"
  by pat_completeness auto
termination
  by (relation "measure nat") (auto simp: int_div_less_self)

declare digits_of.simps [simp del]

definition digits_int :: "string \<Rightarrow> int" where
  "digits_int ds = foldl (\<lambda>a c. 10 * a + int (digit_val c)) 0 ds"

definition round_double :: "int \<Rightarrow> int \<Rightarrow> int \<times> int" where
  "round_double num den =
     (let a = floor_log 2 num - floor_log 2 den;
          p = (if den * pow2 a \<le> num * pow2 (- a) then a else a - 1);
          u = max (p - 52) (- 1074);
          n = num * pow2 (- u);
          d = den * pow2 u;
          q = (if d < 2 * (n mod d) \<or> (2 * (n mod d) = d \<and> odd (n div d)) then n div d + 1 else n div d)
      in if q = 2 ^ 53 then (2 ^ 52, u + 1) else (q, u))"

text \<open>
  The text of a double, as \<open>Number::toString\<close> of ECMAScript gives it for radix 10: the
  digits are those of the shortest decimal \<open>s * 10^g\<close> that rounds to the double, and
  among the decimals of that length the one nearest to it. \<open>shortest\<close> looks for it with
  \<open>k = 1, 2, ...\<close> digits; seventeen digits tell any two doubles apart. The double is
  \<open>x * 2^e\<close> here, and the decimals that round to it lie between \<open>lo * 2^e\<close> and
  \<open>hi * 2^e\<close>, the bounds included when the significand is even; \<open>10^t\<close> is the power
  of ten at or below the double. The decimals compared are \<open>s\<close> and \<open>s + 1\<close> units of
  \<open>10^g\<close>, the two of \<open>k\<close> digits that enclose the double.
\<close>

function shortest :: "int \<Rightarrow> int \<Rightarrow> int \<Rightarrow> int \<Rightarrow> bool \<Rightarrow> int \<Rightarrow> int \<Rightarrow> int \<times> int" where
  "shortest x lo hi e closed t k =
     (let g = t - k + 1;
          w = pow2 (- e) * pow10 g;
          z = pow2 e * pow10 (- g);
          s = (x * z) div w;
          ok = (\<lambda>c. if closed then lo * z \<le> c * w \<and> c * w \<le> hi * z
                     else lo * z < c * w \<and> c * w < hi * z)
      in if ok s \<and> ok (s + 1) then
           (if 2 * x * z < (2 * s + 1) * w then (s, g)
            else if (2 * s + 1) * w < 2 * x * z then (s + 1, g)
            else if even s then (s, g) else (s + 1, g))
         else if ok s then (s, g)
         else if ok (s + 1) then (s + 1, g)
         else if 17 \<le> k then (s, g)
         else shortest x lo hi e closed t (k + 1))"
  by pat_completeness auto
termination
  by (relation "measure (\<lambda>(x, lo, hi, e, closed, t, k). nat (17 - k))") auto

declare shortest.simps [simp del]

function strip_zeros :: "int \<times> int \<Rightarrow> int \<times> int" where
  "strip_zeros (s, g) = (if s \<noteq> 0 \<and> s mod 10 = 0 then strip_zeros (s div 10, g + 1) else (s, g))"
  by pat_completeness auto
termination
  by (relation "measure (\<lambda>(s, g). nat \<bar>s\<bar>)") auto

declare strip_zeros.simps [simp del]

definition decimal_exponent :: "int \<Rightarrow> int \<Rightarrow> int" where
  "decimal_exponent q u =
     (if pow2 (- u) \<le> q * pow2 u then floor_log 10 ((q * pow2 u) div pow2 (- u))
      else - 1 - floor_log 10 (pow2 (- u) div q))"

text \<open>
  The text of the positive double \<open>q * 2^u\<close> that is finite: with the digits \<open>ds\<close>,
  \<open>k\<close> of them, and the point after \<open>n\<close> digits, plain digits for \<open>k \<le> n \<le> 21\<close>, a
  point inside for \<open>0 < n \<le> 21\<close>, leading zeros for \<open>-6 < n \<le> 0\<close>, and the exponent
  form otherwise. Below a power of two the doubles lie twice as close as above it.
\<close>

definition number_text :: "int \<Rightarrow> int \<Rightarrow> string" where
  "number_text q u =
     (let lo = 4 * q - (if q = 2 ^ 52 \<and> - 1074 < u then 1 else 2);
          (s, g) = strip_zeros (shortest (4 * q) lo (4 * q + 2) (u - 2) (even q) (decimal_exponent q u) 1);
          ds = digits_of s;
          k = int (length ds);
          n = g + k
      in if k \<le> n \<and> n \<le> 21 then ds @ replicate (nat (n - k)) CHR ''0''
         else if 0 < n \<and> n \<le> 21 then take (nat n) ds @ ''.'' @ drop (nat n) ds
         else if - 6 < n \<and> n \<le> 0 then ''0.'' @ replicate (nat (- n)) CHR ''0'' @ ds
         else (if k = 1 then ds else hd ds # ''.'' @ tl ds)
              @ ''e'' @ (if n - 1 < 0 then ''-'' else ''+'') @ digits_of \<bar>n - 1\<bar>)"

text \<open>
  The number that the literal of sign \<open>neg\<close>, digits \<open>m\<close> and decimal exponent \<open>e\<close>
  denotes. An integer of at most \<open>2^53\<close> is a double as it stands. A decimal of
  \<open>10^311\<close> or more is beyond the largest double, which is below \<open>2 * 10^308\<close>, and
  one below \<open>10^-330\<close> is nearer to zero than to the smallest double, which is above
  \<open>4 * 10^-324\<close>; every other decimal is rounded. A double that is an integer of at
  most \<open>2^53\<close> is \<open>Num\<close>, and zero of either sign is \<open>Num 0\<close>.
\<close>

definition js_number :: "bool \<Rightarrow> int \<Rightarrow> int \<Rightarrow> jsval" where
  "js_number neg m e =
     (let sg = (if neg then ''-'' else '''')
      in if m = 0 then Num 0
         else if 0 \<le> e \<and> e \<le> 16 \<and> m * pow10 e \<le> 2 ^ 53
         then Num (if neg then - (m * pow10 e) else m * pow10 e)
         else if 310 < floor_log 10 m + e then Flt (sg @ ''Infinity'')
         else if floor_log 10 m + e < - 330 then Num 0
         else
           (let (q, u) = round_double (m * pow10 e) (pow10 (- e));
                v = (q * pow2 u) div pow2 (- u)
            in if 971 < u then Flt (sg @ ''Infinity'')
               else if q = 0 then Num 0
               else if (q * pow2 u) mod pow2 (- u) = 0 \<and> v \<le> 2 ^ 53
               then Num (if neg then - v else v)
               else Flt (sg @ number_text q u)))"

text \<open>The literal at the head of a text, and the text after it.\<close>

definition parse_number :: "string \<Rightarrow> (jsval \<times> string) option" where
  "parse_number cs =
     (let neg = (case cs of [] \<Rightarrow> False | c # r \<Rightarrow> c = CHR ''-'');
          ds = (if neg then tl cs else cs);
          ip = takeWhile is_digit ds;
          r1 = dropWhile is_digit ds;
          dot = (case r1 of [] \<Rightarrow> False | c # r \<Rightarrow> c = CHR ''.'');
          fp = (if dot then takeWhile is_digit (tl r1) else []);
          r2 = (if dot then dropWhile is_digit (tl r1) else r1);
          ex = (case r2 of [] \<Rightarrow> False | c # r \<Rightarrow> c = CHR ''e'' \<or> c = CHR ''E'');
          sgn = (case tl r2 of [] \<Rightarrow> False | c # r \<Rightarrow> c = CHR ''-'' \<or> c = CHR ''+'');
          eneg = (case tl r2 of [] \<Rightarrow> False | c # r \<Rightarrow> c = CHR ''-'');
          r3 = (if sgn then tl (tl r2) else tl r2);
          ep = (if ex then takeWhile is_digit r3 else []);
          rest = (if ex then dropWhile is_digit r3 else r2);
          e = (if eneg then - digits_int ep else digits_int ep)
      in if ip = [] then None
         else if 1 < length ip \<and> hd ip = CHR ''0'' then None
         else if dot \<and> fp = [] then None
         else if ex \<and> ep = [] then None
         else Some (js_number neg (digits_int (ip @ fp)) (e - int (length fp)), rest))"

subsection \<open>Values\<close>

text \<open>
  \<open>JSON.parse\<close> on a text of code units below 256. The whole grammar of JSON is read:
  objects, arrays, strings with their escapes, numbers, \<open>true\<close>, \<open>false\<close> and \<open>null\<close>.
  Through an escape \<open>\uXXXX\<close> a string of JSON can hold a code unit above 255, which
  the strings of the model cannot. The parser reads such a string like any other and
  keeps no characters for it: a string, and every value around it, is \<open>Some\<close> of what
  was built, or \<open>None\<close> when such an escape was met, and the rest of the text is read
  and checked in both cases. What is not JSON is a failure of the parser itself. The
  result of \<open>JSON_parse\<close> tells the three apart: \<open>SyntaxError\<close> is the exception
  that \<open>JSON.parse\<close> throws, \<open>Value v\<close> is the value that it returns, and
  \<open>Unrepresentable\<close> says that \<open>JSON.parse\<close> returns a value and that the text holds
  an escape of a code unit above 255, so that the model does not tell which.

  A repeated key keeps its first place and takes the last value, which is what
  \<open>obj_set\<close> does. The recursion runs on fuel: every call uses one unit, and between
  two calls that read no character in between at least one character is read, so the
  fuel given, twice the length of the text and one, is never used up (lemma
  \<open>JSON_parse_any_fuel\<close> below).
\<close>

datatype parse_result = SyntaxError | Unrepresentable | Value jsval

definition is_json_ws :: "char \<Rightarrow> bool" where
  "is_json_ws c = ((of_char c :: nat) \<in> {9, 10, 13, 32})"

definition skip_ws :: "string \<Rightarrow> string" where
  "skip_ws cs = dropWhile is_json_ws cs"

definition hex_val :: "char \<Rightarrow> nat option" where
  "hex_val c =
     (let n = (of_char c :: nat)
      in if 48 \<le> n \<and> n \<le> 57 then Some (n - 48)
         else if 97 \<le> n \<and> n \<le> 102 then Some (n - 87)
         else if 65 \<le> n \<and> n \<le> 70 then Some (n - 55)
         else None)"

definition hex4 :: "char \<Rightarrow> char \<Rightarrow> char \<Rightarrow> char \<Rightarrow> nat option" where
  "hex4 a b c d =
     (case (hex_val a, hex_val b, hex_val c, hex_val d) of
        (Some w, Some x, Some y, Some z) \<Rightarrow> Some (((w * 16 + x) * 16 + y) * 16 + z)
      | _ \<Rightarrow> None)"

definition unescape :: "char \<Rightarrow> char option" where
  "unescape e =
     (if e = CHR 0x22 then Some (CHR 0x22)
      else if e = CHR 0x5C then Some (CHR 0x5C)
      else if e = CHR ''/'' then Some (CHR ''/'')
      else if e = CHR ''b'' then Some (CHR 0x08)
      else if e = CHR ''f'' then Some (CHR 0x0C)
      else if e = CHR ''n'' then Some (CHR 0x0A)
      else if e = CHR ''r'' then Some (CHR 0x0D)
      else if e = CHR ''t'' then Some (CHR 0x09)
      else None)"

text \<open>The code unit of an escape \<open>\uXXXX\<close> as a character, when it is below 256.\<close>

definition code_unit :: "nat \<Rightarrow> char option" where
  "code_unit n = (if n < 256 then Some (char_of n) else None)"

definition push_char ::
  "char option \<Rightarrow> (string option \<times> string) option \<Rightarrow> (string option \<times> string) option" where
  "push_char c res =
     (case res of
        None \<Rightarrow> None
      | Some (s, rest) \<Rightarrow>
          Some (case c of None \<Rightarrow> None | Some ch \<Rightarrow> map_option ((#) ch) s, rest))"

text \<open>The text after an opening quote: the string's characters and what follows the closing quote.\<close>

fun parse_string_body :: "string \<Rightarrow> (string option \<times> string) option" where
  "parse_string_body [] = None"
| "parse_string_body (c # cs) =
     (if c = CHR 0x22 then Some (Some [], cs)
      else if c = CHR 0x5C then
        (case cs of
           [] \<Rightarrow> None
         | e # r \<Rightarrow>
             if e = CHR ''u'' then
               (case r of
                  h1 # h2 # h3 # h4 # r' \<Rightarrow>
                    (case hex4 h1 h2 h3 h4 of
                       None \<Rightarrow> None
                     | Some n \<Rightarrow> push_char (code_unit n) (parse_string_body r'))
                | _ \<Rightarrow> None)
             else
               (case unescape e of
                  None \<Rightarrow> None
                | Some ch \<Rightarrow> push_char (Some ch) (parse_string_body r)))
      else if (of_char c :: nat) < 32 then None
      else push_char (Some c) (parse_string_body cs))"


text \<open>An element joins the array read so far, a member the object read so far.\<close>

definition add_element :: "jsval list option \<Rightarrow> jsval option \<Rightarrow> jsval list option" where
  "add_element acc v =
     (case acc of None \<Rightarrow> None | Some xs \<Rightarrow> (case v of None \<Rightarrow> None | Some x \<Rightarrow> Some (xs @ [x])))"

definition add_member :: "jsobj option \<Rightarrow> string option \<Rightarrow> jsval option \<Rightarrow> jsobj option" where
  "add_member acc k v =
     (case acc of
        None \<Rightarrow> None
      | Some kvs \<Rightarrow>
          (case k of
             None \<Rightarrow> None
           | Some key \<Rightarrow> (case v of None \<Rightarrow> None | Some x \<Rightarrow> Some (obj_set kvs key x))))"

fun parse_value :: "nat \<Rightarrow> string \<Rightarrow> (jsval option \<times> string) option"
  and parse_elements :: "nat \<Rightarrow> jsval list option \<Rightarrow> string \<Rightarrow> (jsval option \<times> string) option"
  and parse_members :: "nat \<Rightarrow> jsobj option \<Rightarrow> string \<Rightarrow> (jsval option \<times> string) option"
where
  "parse_value 0 cs = None"
| "parse_value (Suc n) cs =
     (case skip_ws cs of
        [] \<Rightarrow> None
      | c # r \<Rightarrow>
          if c = CHR ''{'' then
            (case skip_ws r of
               [] \<Rightarrow> None
             | c' # r' \<Rightarrow> if c' = CHR ''}'' then Some (Some (Obj []), r') else parse_members n (Some []) r)
          else if c = CHR ''['' then
            (case skip_ws r of
               [] \<Rightarrow> None
             | c' # r' \<Rightarrow> if c' = CHR '']'' then Some (Some (Arr []), r') else parse_elements n (Some []) r)
          else if c = CHR 0x22 then
            (case parse_string_body r of None \<Rightarrow> None | Some (s, r') \<Rightarrow> Some (map_option Str s, r'))
          else if take 4 (c # r) = ''true'' then Some (Some (Bool True), drop 4 (c # r))
          else if take 5 (c # r) = ''false'' then Some (Some (Bool False), drop 5 (c # r))
          else if take 4 (c # r) = ''null'' then Some (Some Null, drop 4 (c # r))
          else (case parse_number (c # r) of None \<Rightarrow> None | Some (v, r') \<Rightarrow> Some (Some v, r')))"
| "parse_elements 0 acc cs = None"
| "parse_elements (Suc n) acc cs =
     (case parse_value n cs of
        None \<Rightarrow> None
      | Some (v, r) \<Rightarrow>
          (case skip_ws r of
             [] \<Rightarrow> None
           | c # r' \<Rightarrow>
               if c = CHR '','' then parse_elements n (add_element acc v) r'
               else if c = CHR '']'' then Some (map_option Arr (add_element acc v), r')
               else None))"
| "parse_members 0 acc cs = None"
| "parse_members (Suc n) acc cs =
     (case skip_ws cs of
        [] \<Rightarrow> None
      | q # r \<Rightarrow>
          if q \<noteq> CHR 0x22 then None
          else
            (case parse_string_body r of
               None \<Rightarrow> None
             | Some (k, r1) \<Rightarrow>
                 (case skip_ws r1 of
                    [] \<Rightarrow> None
                  | c1 # r2 \<Rightarrow>
                      if c1 \<noteq> CHR '':'' then None
                      else
                        (case parse_value n r2 of
                           None \<Rightarrow> None
                         | Some (v, r3) \<Rightarrow>
                             (case skip_ws r3 of
                                [] \<Rightarrow> None
                              | c3 # r4 \<Rightarrow>
                                  if c3 = CHR '','' then parse_members n (add_member acc k v) r4
                                  else if c3 = CHR ''}'' then Some (map_option Obj (add_member acc k v), r4)
                                  else None)))))"

definition JSON_parse :: "string \<Rightarrow> parse_result" where
  "JSON_parse text =
     (case parse_value (Suc (length text + length text)) text of
        None \<Rightarrow> SyntaxError
      | Some (v, rest) \<Rightarrow>
          if skip_ws rest \<noteq> [] then SyntaxError
          else (case v of None \<Rightarrow> Unrepresentable | Some x \<Rightarrow> Value x))"

text \<open>
  \<open>JSON.stringify\<close> without indentation. An \<open>undefined\<close> array element is printed as
  \<open>null\<close>; a property whose value is \<open>undefined\<close> is left out.
\<close>

definition hex_digit :: "nat \<Rightarrow> char" where
  "hex_digit d = (if d < 10 then char_of (48 + d) else char_of (87 + d))"

definition escape_char :: "char \<Rightarrow> string" where
  "escape_char c =
     (let n = (of_char c :: nat)
      in if n = 34 then [CHR 0x5C, CHR 0x22]
         else if n = 92 then [CHR 0x5C, CHR 0x5C]
         else if n = 8 then [CHR 0x5C, CHR ''b'']
         else if n = 9 then [CHR 0x5C, CHR ''t'']
         else if n = 10 then [CHR 0x5C, CHR ''n'']
         else if n = 12 then [CHR 0x5C, CHR ''f'']
         else if n = 13 then [CHR 0x5C, CHR ''r'']
         else if n < 32 then [CHR 0x5C, CHR ''u'', CHR ''0'', CHR ''0'', hex_digit (n div 16), hex_digit (n mod 16)]
         else [c])"

definition quote_string :: "string \<Rightarrow> string" where
  "quote_string s = CHR 0x22 # concat (map escape_char s) @ [CHR 0x22]"

fun JSON_stringify :: "jsval \<Rightarrow> string" where
  "JSON_stringify Undefined = ''null''"
| "JSON_stringify Null = ''null''"
| "JSON_stringify (Bool b) = (if b then ''true'' else ''false'')"
| "JSON_stringify (Num n) = dec_int n"
| "JSON_stringify (Flt t) = (if t = ''Infinity'' \<or> t = ''-Infinity'' then ''null'' else t)"
| "JSON_stringify (Str s) = quote_string s"
| "JSON_stringify (Arr xs) = ''['' @ join_with '','' (map JSON_stringify xs) @ '']''"
| "JSON_stringify (Obj kvs) =
     ''{'' @ join_with '',''
        (map (\<lambda>(k, v). quote_string k @ '':'' @ JSON_stringify v)
           (filter (\<lambda>(k, v). v \<noteq> Undefined) kvs)) @ ''}''"

text \<open>\<open>JSON.parse(JSON.stringify(obj))\<close>, the deep copy of the material template.\<close>

fun deepClone :: "jsval \<Rightarrow> jsval" where
  "deepClone (Flt t) = (if t = ''Infinity'' \<or> t = ''-Infinity'' then Null else Flt t)"
| "deepClone (Arr xs) = Arr (map (\<lambda>x. if x = Undefined then Null else deepClone x) xs)"
| "deepClone (Obj kvs) =
     Obj (map (\<lambda>(k, v). (k, deepClone v)) (filter (\<lambda>(k, v). v \<noteq> Undefined) kvs))"
| "deepClone v = v"

section \<open>Notes of a preset\<close>

text \<open>
  \<open>getNotesString\<close> is the same in tools/config.js, tools/database-tool.js and
  tools/options-tool.js; \<open>parseNotes\<close> is the same in the last two. A failed
  \<open>JSON.parse\<close> is caught and gives \<open>null\<close>.

  Where the Notes are JSON and hold an escape of a code unit above 255, the program goes
  on with the value that \<open>JSON.parse\<close> returns and \<open>parseNotes\<close> has none to give:
  it is \<open>null\<close> there, which is not what the program has. The statements about the
  two loops are therefore made for presets that are \<open>notes_representable\<close>, that is,
  whose Notes are not of this kind. The filter only asks whether \<open>JSON.parse\<close>
  throws, so it is modelled for all Notes.
\<close>

definition getNotesString :: "jsval \<Rightarrow> string" where
  "getNotesString profile =
     (case prop_get profile ''filament_notes'' of
        Arr ns \<Rightarrow> js_String (nullish_or (first_elem ns) (Str []))
      | Str n \<Rightarrow> n
      | _ \<Rightarrow> [])"

definition parseNotes :: "jsval \<Rightarrow> jsval" where
  "parseNotes profile =
     (let raw = js_trim (js_String (js_or (Str (getNotesString profile)) (Str [])))
      in if raw = [] \<or> raw = [CHR 0x22, CHR 0x22] then Null
         else (case JSON_parse raw of Value v \<Rightarrow> v | _ \<Rightarrow> Null))"

definition notes_representable :: "jsval \<Rightarrow> bool" where
  "notes_representable profile =
     (JSON_parse (js_trim (js_String (js_or (Str (getNotesString profile)) (Str [])))) \<noteq> Unrepresentable)"

subsection \<open>The profile filter of tools/config.js\<close>



text \<open>
  The record \<open>{ id, vendor, type, name }\<close> that \<open>autoGenerateNotes\<close> builds, and the
  preset after \<open>profile.filament_notes = [notesStr]\<close>. The warning on the console is
  not modelled.
\<close>

definition autoNotesObj :: "jsobj \<Rightarrow> jsobj" where
  "autoNotesObj profile =
     (let name = js_or (unwrapFirst (obj_get profile ''name'')) (Str ''Custom Filament'');
          vendor = js_or (unwrapFirst (obj_get profile ''filament_vendor'')) (Str ''Custom'');
          type = js_or (js_or (unwrapFirst (obj_get profile ''filament_type''))
                    (Str (deriveTypeFromInherits (unwrapFirst (obj_get profile ''inherits'')))))
                   (Str ''CUSTOM'');
          ident = stableFiveDigitId
                    (Str (js_String vendor @ ''|'' @ js_String type @ ''|'' @ js_String name))
      in [(''id'', Str ident), (''vendor'', vendor), (''type'', type), (''name'', name)])"


datatype error = NoProfilesFound | UnexpectedShape



section \<open>Database reconciliation (tools/database-tool.js)\<close>

definition getList :: "jsval \<Rightarrow> error + jsval list" where
  "getList dbObj =
     (case prop_get (prop_get dbObj ''result'') ''list'' of
        Arr entries \<Rightarrow> Inr entries
      | _ \<Rightarrow> Inl UnexpectedShape)"

text \<open>\<open>Array.prototype.findIndex\<close>: the first index whose element passes, or \<open>-1\<close>.\<close>

fun findIndex :: "('a \<Rightarrow> bool) \<Rightarrow> 'a list \<Rightarrow> int" where
  "findIndex P [] = - 1"
| "findIndex P (x # xs) =
     (if P x then 0 else (let r = findIndex P xs in if r < 0 then - 1 else r + 1))"

definition entry_id :: "jsval \<Rightarrow> string" where
  "entry_id m = js_String (nullish_or (unwrapFirst (prop_get m ''id'')) (Str []))"

definition findById :: "jsval list \<Rightarrow> jsval \<Rightarrow> int" where
  "findById entries ident = findIndex (\<lambda>m. entry_id m = js_String ident) entries"

fun is_object :: "jsval \<Rightarrow> bool" where
  "is_object (Obj kvs) = True"
| "is_object (Arr xs) = True"
| "is_object Null = True"
| "is_object v = False"

definition normalizeToArray :: "jsval \<Rightarrow> jsval" where
  "normalizeToArray v =
     (if isArray v then v
      else if nullish v then v
      else if is_object v then v
      else Arr [v])"

text \<open>
  \<open>Object.entries\<close>: the entries of an object, the indexed elements of an array, the
  indexed characters of a string, nothing for another value. (JavaScript lists keys
  that are array indices first; no property below depends on the order of the keys.)
\<close>

definition object_entries :: "jsval \<Rightarrow> jsobj" where
  "object_entries v =
     (case v of
        Obj kvs \<Rightarrow> kvs
      | Arr xs \<Rightarrow> zip (map dec_nat [0 ..< length xs]) xs
      | Str s \<Rightarrow> zip (map dec_nat [0 ..< length s]) (map (\<lambda>c. Str [c]) s)
      | _ \<Rightarrow> [])"

text \<open>
  The material template \<open>sourcedata/newMaterial.json\<close> is a data file of the repository
  that is not among the sources: it is the parameter \<open>newMaterialTemplate\<close>, an object.
\<close>

definition buildMaterialFromProfile :: "jsobj \<Rightarrow> jsval \<Rightarrow> jsval \<Rightarrow> jsval" where
  "buildMaterialFromProfile newMaterialTemplate profile notesObj =
     (let mat0 = (case deepClone (Obj newMaterialTemplate) of Obj kvs \<Rightarrow> kvs | _ \<Rightarrow> []);
          mat1 = foldl (\<lambda>mat (k, v). obj_set mat k (normalizeToArray v)) mat0
                   (object_entries (js_or profile (Obj [])));
          ident = js_String (prop_get notesObj ''id'');
          name = js_String (prop_get notesObj ''name'');
          vendor = js_String (prop_get notesObj ''vendor'');
          type = js_String (prop_get notesObj ''type'');
          mat2 = obj_set mat1 ''id'' (Arr [Str ident]);
          mat3 = obj_set mat2 ''name'' (Arr [Str name]);
          mat4 = obj_set mat3 ''filament_id'' (Arr [Str ident]);
          mat5 = obj_set mat4 ''filament_vendor'' (Arr [Str vendor]);
          mat6 = obj_set mat5 ''filament_type'' (Arr [Str type]);
          mat7 = obj_set mat6 ''filament_settings_id'' (Arr [Str name]);
          mat8 = obj_set mat7 ''from'' (Arr [Str ''User'']);
          mat9 = obj_set mat8 ''is_custom_defined'' (Arr [Num 0])
      in Obj (obj_set mat9 ''filament_notes''
           (Arr [Str (JSON_stringify
              (Obj [(''id'', Str ident), (''vendor'', Str vendor), (''type'', Str type),
                    (''name'', Str name)]))])))"

text \<open>
  The loop of \<open>addToDatabase\<close> over the profiles: the list it mutates and its two
  counters. \<open>db_skips\<close> is the test before \<open>continue\<close>.
\<close>

record db_run =
  db_list :: "jsval list"
  added :: nat
  updated :: nat

definition db_skips :: "jsval \<Rightarrow> bool" where
  "db_skips p = (let notesObj = parseNotes p in \<not> truthy notesObj \<or> \<not> truthy (prop_get notesObj ''id''))"

definition db_step :: "jsobj \<Rightarrow> db_run \<Rightarrow> jsval \<Rightarrow> db_run" where
  "db_step newMaterialTemplate st p =
     (if db_skips p then st
      else
        (let notesObj = parseNotes p;
             ident = js_String (prop_get notesObj ''id'');
             idx = findById (db_list st) (Str ident);
             material = buildMaterialFromProfile newMaterialTemplate p notesObj
         in if 0 \<le> idx
            then st\<lparr>db_list := (db_list st)[nat idx := material], updated := updated st + 1\<rparr>
            else st\<lparr>db_list := db_list st @ [material], added := added st + 1\<rparr>))"

definition db_loop :: "jsobj \<Rightarrow> jsval list \<Rightarrow> jsval list \<Rightarrow> db_run" where
  "db_loop newMaterialTemplate entries profiles =
     foldl (db_step newMaterialTemplate) \<lparr>db_list = entries, added = 0, updated = 0\<rparr> profiles"

text \<open>
  \<open>addToDatabase\<close>, with the baseline that \<open>loadBaseDatabase\<close> returned and the clock
  \<open>Date.now()\<close> as parameters. The result is the document it writes to
  \<open>data/material_database.json\<close> (as a value; the file holds its tab-indented JSON
  text), or the error that \<open>getList\<close> throws before anything is written.
\<close>

definition nowEpochSeconds :: "nat \<Rightarrow> string" where
  "nowEpochSeconds now_ms = js_String (Num (int (now_ms div 1000)))"

definition addToDatabase :: "nat \<Rightarrow> jsobj \<Rightarrow> jsval \<Rightarrow> jsval list \<Rightarrow> error + jsval" where
  "addToDatabase now_ms newMaterialTemplate dbObj profiles =
     (case getList dbObj of
        Inl e \<Rightarrow> Inl e
      | Inr entries \<Rightarrow>
          (let st = db_loop newMaterialTemplate entries profiles;
               res0 = (case prop_get dbObj ''result'' of Obj kvs \<Rightarrow> kvs | _ \<Rightarrow> []);
               res1 = obj_set res0 ''list'' (Arr (db_list st));
               res2 = obj_set res1 ''count'' (Num (int (length (db_list st))));
               res3 = obj_set res2 ''version'' (Str (nowEpochSeconds now_ms))
           in Inr (Obj (obj_set (case dbObj of Obj kvs \<Rightarrow> kvs | _ \<Rightarrow> []) ''result'' (Obj res3)))))"

section \<open>The options document (tools/options-tool.js)\<close>






section \<open>Expansion of truncated presets (fix-creality-base-filaments.js)\<close>

definition STRING_KEYS :: "string list" where
  "STRING_KEYS =
     [''type'', ''name'', ''from'', ''instantiation'', ''inherits'', ''filament_id'',
      ''setting_id'', ''base_id'', ''version'', ''is_custom_defined'']"

definition normalize_entry :: "jsobj \<Rightarrow> string \<times> jsval \<Rightarrow> jsobj" where
  "normalize_entry out kv =
     (case kv of (k, v) \<Rightarrow>
        if v = Undefined then out
        else if isArray v then obj_set out k v
        else if k \<in> set STRING_KEYS then obj_set out k (Str (js_String v))
        else obj_set out k (Arr [Str (js_String v)]))"

definition normalizePresetValues :: "jsval \<Rightarrow> jsobj" where
  "normalizePresetValues preset =
     foldl normalize_entry [] (object_entries (js_or preset (Obj [])))"

definition countKeys :: "jsval \<Rightarrow> nat" where
  "countKeys obj = (if truthy obj then length (object_entries obj) else 0)"

text \<open>\<open>Object.assign(target, source)\<close> and the merge \<open>Object.assign({}, rootN, baseN, userN)\<close>.\<close>

definition object_assign :: "jsobj \<Rightarrow> jsobj \<Rightarrow> jsobj" where
  "object_assign target source = foldl (\<lambda>t (k, v). obj_set t k v) target source"

definition merge_layers :: "jsobj \<Rightarrow> jsobj \<Rightarrow> jsobj \<Rightarrow> jsobj" where
  "merge_layers rootN baseN userN = object_assign (object_assign (object_assign [] rootN) baseN) userN"

text \<open>The heuristic of the loop body that decides whether a user preset is expanded.\<close>

definition looksLikeTruncatedUserPreset :: "jsval \<Rightarrow> bool" where
  "looksLikeTruncatedUserPreset userPreset =
     (let fromVal =
            (if truthy userPreset \<and> is_string (prop_get userPreset ''from'')
             then toLowerCase (js_trim (js_String (prop_get userPreset ''from'')))
             else [])
      in truthy userPreset \<and> is_object userPreset \<and> fromVal = ''user''
         \<and> is_string (prop_get userPreset ''inherits'')
         \<and> is_string (prop_get userPreset ''base_id'')
         \<and> countKeys userPreset < 120)"

text \<open>
  The file system is the environment of the script. \<open>system_preset name\<close> stands for
  \<open>findSystemPresetPathByName\<close> followed by \<open>readJson\<close> on a non-empty name: no such
  file, a file that is not JSON, or the parsed document. \<open>out_exists\<close> is
  \<open>isFile(outPath)\<close>, \<open>file_stem\<close> is \<open>path.basename(fname, ".json")\<close>, and
  \<open>write_ok\<close> tells whether \<open>fs.writeFileSync\<close> returns.
\<close>

datatype 'a lookup = NotFound | BadJson | Loaded 'a

record fix_env =
  FORCE :: bool
  out_exists :: bool
  system_preset :: "string \<Rightarrow> jsval lookup"
  file_stem :: string
  write_ok :: bool

definition findSystemPreset :: "fix_env \<Rightarrow> string \<Rightarrow> jsval lookup" where
  "findSystemPreset env name = (if name = [] then NotFound else system_preset env name)"

datatype skip_reason = BadUserJson | NotTruncated | Exists | MissingBase | BadBaseJson | WriteFailed

datatype outcome = Skipped skip_reason | Built jsobj

text \<open>The root template name: the trimmed \<open>inherits\<close> of the system preset, or \<open>null\<close>.\<close>

definition rootNameOf :: "jsval \<Rightarrow> jsval" where
  "rootNameOf basePreset =
     (if truthy basePreset \<and> is_string (prop_get basePreset ''inherits'')
      then Str (js_trim (js_String (prop_get basePreset ''inherits'')))
      else Null)"

text \<open>The root preset that is merged, and the warning counted when it cannot be read.\<close>

definition loadRoot :: "fix_env \<Rightarrow> jsval \<Rightarrow> jsval \<times> nat" where
  "loadRoot env rootName =
     (if truthy rootName then
        (case findSystemPreset env (js_String rootName) of
           NotFound \<Rightarrow> (Obj [], 1)
         | BadJson \<Rightarrow> (Obj [], 1)
         | Loaded r \<Rightarrow> (r, 0))
      else (Obj [], 0))"

definition finishMerged :: "fix_env \<Rightarrow> jsval \<Rightarrow> jsobj \<Rightarrow> jsobj" where
  "finishMerged env rootName merged =
     (let m1 = (if truthy rootName then obj_set merged ''inherits'' rootName else merged)
      in if \<not> truthy (obj_get m1 ''name'') \<or> \<not> is_string (obj_get m1 ''name'')
         then obj_set m1 ''name'' (Str (file_stem env)) else m1)"

text \<open>
  One turn of the loop of \<open>processCrealityVersion\<close> for a preset file that was read:
  what happens to the file, and the warnings counted.
\<close>

definition expandPreset :: "fix_env \<Rightarrow> jsval lookup \<Rightarrow> outcome \<times> nat" where
  "expandPreset env userFile =
     (case userFile of
        NotFound \<Rightarrow> (Skipped BadUserJson, 0)
      | BadJson \<Rightarrow> (Skipped BadUserJson, 0)
      | Loaded userPreset \<Rightarrow>
          if \<not> looksLikeTruncatedUserPreset userPreset then (Skipped NotTruncated, 0)
          else if out_exists env \<and> \<not> FORCE env then (Skipped Exists, 0)
          else
            (case findSystemPreset env (js_trim (js_String (prop_get userPreset ''inherits''))) of
               NotFound \<Rightarrow> (Skipped MissingBase, 0)
             | BadJson \<Rightarrow> (Skipped BadBaseJson, 0)
             | Loaded basePreset \<Rightarrow>
                 (let rootName = rootNameOf basePreset;
                      (rootPreset, w1) = loadRoot env rootName;
                      rootN = normalizePresetValues rootPreset;
                      baseN = normalizePresetValues basePreset;
                      userN = normalizePresetValues userPreset;
                      merged = finishMerged env rootName (merge_layers rootN baseN userN);
                      w2 = (if length merged < 120 then 1 else 0)
                  in if write_ok env then (Built merged, w1 + w2)
                     else (Skipped WriteFailed, w1 + w2))))"

section \<open>Notions used to state and prove the properties\<close>

subsection \<open>The database loop as a list of operations\<close>

text \<open>
  A profile that is not skipped contributes one operation: the string of its Notes id
  and the material built from it. \<open>upsert\<close> is what the loop body does to the list with
  such an operation, told through the first entry whose id matches.
\<close>

definition first_index :: "string \<Rightarrow> jsval list \<Rightarrow> nat" where
  "first_index x l = length (takeWhile (\<lambda>m. entry_id m \<noteq> x) l)"

definition upsert :: "jsval list \<Rightarrow> string \<times> jsval \<Rightarrow> jsval list" where
  "upsert l op =
     (case op of (x, m) \<Rightarrow>
        if x \<in> entry_id ` set l then l[first_index x l := m] else l @ [m])"

definition db_op :: "jsobj \<Rightarrow> jsval \<Rightarrow> string \<times> jsval" where
  "db_op tmpl p =
     (js_String (prop_get (parseNotes p) ''id''), buildMaterialFromProfile tmpl p (parseNotes p))"

definition db_ops :: "jsobj \<Rightarrow> jsval list \<Rightarrow> (string \<times> jsval) list" where
  "db_ops tmpl ps = map (db_op tmpl) (filter (\<lambda>p. \<not> db_skips p) ps)"



subsection \<open>The classification of a truncated preset, in the specification's words\<close>

text \<open>
  The specification (section 4.1) calls a preset truncated when it declares an
  inheritance reference, declares a base-template reference, its originating field
  indicates user authorship, and its total key count is below 120. A reference is
  declared by a string; the originating field is \<open>from\<close>, read without regard to
  case and surrounding space.
\<close>

definition declares_reference :: "jsval \<Rightarrow> string \<Rightarrow> bool" where
  "declares_reference preset k = (case prop_get preset k of Str r \<Rightarrow> True | _ \<Rightarrow> False)"

definition user_authored :: "jsval \<Rightarrow> bool" where
  "user_authored preset =
     (case prop_get preset ''from'' of Str f \<Rightarrow> toLowerCase (js_trim f) = ''user'' | _ \<Rightarrow> False)"

definition key_count :: "jsval \<Rightarrow> nat" where
  "key_count preset = (case preset of Obj kvs \<Rightarrow> length kvs | _ \<Rightarrow> 0)"

definition spec_truncated :: "jsval \<Rightarrow> bool" where
  "spec_truncated preset =
     (declares_reference preset ''inherits'' \<and> declares_reference preset ''base_id''
      \<and> user_authored preset \<and> key_count preset < 120)"

text \<open>A key is present in a layer.\<close>

definition has_key :: "jsobj \<Rightarrow> string \<Rightarrow> bool" where
  "has_key kvs k = (k \<in> fst ` set kvs)"

subsection \<open>Data of the scenarios\<close>

text \<open>
  A small material template, the preset of the specification's first scenario, and a
  baseline whose list holds the entry that the preset updates and one that it does not
  touch.
\<close>

definition scn_template :: jsobj where
  "scn_template = [(''nozzle_temperature'', Arr [Str ''200''])]"

definition scn_preset :: jsval where
  \<open>scn_preset = Obj [(''name'', Arr [Str ''New'']),
     (''filament_notes'', Arr [Str ''{"id":"10001","vendor":"X","type":"PLA","name":"New"}''])]\<close>

definition scn_baseline :: jsval where
  "scn_baseline = Obj [(''result'', Obj [(''list'', Arr
      [Obj [(''id'', Str ''10001''), (''name'', Arr [Str ''Old''])],
       Obj [(''id'', Arr [Num 30003]), (''name'', Arr [Str ''Keep''])]]),
     (''count'', Num 2), (''version'', Str ''1'')])]"




text \<open>
  The preset of the first scenario with one more field in its Notes, a density that is
  not an integer, and a preset whose Notes hold the escape \<open>\u0100\<close>, a code unit that
  no string of the model holds.
\<close>

definition scn_fraction_entries :: jsobj where
  \<open>scn_fraction_entries = [(''name'', Arr [Str ''New'']),
     (''filament_notes'',
      Arr [Str ''{"id":"10001","vendor":"X","type":"PLA","name":"New","density":1.24}''])]\<close>

definition scn_fraction :: jsval where
  "scn_fraction = Obj scn_fraction_entries"

definition scn_wide_entries :: jsobj where
  \<open>scn_wide_entries =
     [(''filament_notes'', Arr [Str (''{"id":"10001","name":"'' @ [CHR 0x5C] @ ''u0100"}'')])]\<close>

definition scn_acme :: jsobj where
  "scn_acme = [(''name'', Arr [Str ''My PETG'']), (''filament_vendor'', Arr [Str ''Acme'']),
     (''inherits'', Str ''fdm_filament_petg'')]"

text \<open>
  A truncated user preset, the system preset it inherits from, the root template of
  that, and a file system that holds the two templates and no output file yet.
\<close>

definition scn_user :: jsval where
  "scn_user = Obj [(''from'', Str ''User''), (''inherits'', Str ''Generic PLA''),
     (''base_id'', Str ''GFL99''), (''name'', Str ''My PLA''),
     (''nozzle_temperature'', Arr [Str ''210''])]"

definition scn_system :: jsval where
  "scn_system = Obj [(''inherits'', Str ''fdm_filament_pla''), (''name'', Str ''Generic PLA''),
     (''from'', Str ''system''), (''nozzle_temperature'', Arr [Str ''200'']),
     (''fan_speed'', Num 80)]"

definition scn_root :: jsval where
  "scn_root = Obj [(''name'', Str ''fdm_filament_pla''), (''nozzle_temperature'', Arr [Str ''190'']),
     (''fan_speed'', Num 100), (''bed_temperature'', Str ''60'')]"

definition scn_env :: fix_env where
  "scn_env = \<lparr>FORCE = False, out_exists = False,
     system_preset = (\<lambda>n. if n = ''Generic PLA'' then Loaded scn_system
                          else if n = ''fdm_filament_pla'' then Loaded scn_root else NotFound),
     file_stem = ''My PLA'', write_ok = True\<rparr>"

section \<open>Evaluation rules\<close>

lemmas char_eval = char_of_def bit_Suc_0_iff

lemmas json_eval = JSON_parse_def skip_ws_def is_json_ws_def push_char_def unescape_def
  code_unit_def add_element_def add_member_def hex4_def hex_val_def

lemmas number_eval = parse_number_def js_number_def is_digit_def digits_int_def digit_val_def
  pow10_def

lemmas notes_eval = parseNotes_def getNotesString_def js_trim_def is_js_space_def js_or_def
  nullish_or_def json_eval number_eval

lemmas stringify_eval = quote_string_def escape_char_def hex_digit_def dec_int_def
  digit_char_def char_eval

lemma floor_log_less: "n < b \<or> b < 2 \<Longrightarrow> floor_log b n = 0"
  by (simp add: floor_log.simps)

lemma floor_log_ge: "b \<le> n \<Longrightarrow> 2 \<le> b \<Longrightarrow> floor_log b n = 1 + floor_log b (n div b)"
  by (subst floor_log.simps) simp

lemma digits_of_small: "n < 10 \<Longrightarrow> digits_of n = [digit_char (nat n)]"
  by (simp add: digits_of.simps)

lemma digits_of_large:
  "10 \<le> n \<Longrightarrow> digits_of n = digits_of (n div 10) @ [digit_char (nat (n mod 10))]"
  by (subst digits_of.simps) simp

lemmas double_eval = round_double_def number_text_def decimal_exponent_def pow2_def
  floor_log_less floor_log_ge digits_of_small digits_of_large shortest.simps strip_zeros.simps
  Let_def digit_char_def char_eval

lemma dec_nat_small [simp]: "n < 10 \<Longrightarrow> dec_nat n = [digit_char n]"
  by (simp add: dec_nat.simps)

lemma dec_nat_large [simp]:
  "10 \<le> n \<Longrightarrow> dec_nat n = dec_nat (n div 10) @ [digit_char (n mod 10)]"
  by (subst dec_nat.simps) simp

section \<open>The fuel of the parser is never used up\<close>

lemma skip_ws_length: "length (skip_ws cs) \<le> length cs"
  by (simp add: skip_ws_def length_dropWhile_le)

lemma skip_ws_Cons: "skip_ws cs = c # r \<Longrightarrow> length r < length cs"
  using skip_ws_length [of cs] by simp

lemma push_char_Some:
  "push_char c res = Some (s, r) \<Longrightarrow> \<exists>s'. res = Some (s', r)"
  by (cases res) (auto simp: push_char_def)

lemma string_body_consumes: "parse_string_body cs = Some (s, r) \<Longrightarrow> length r < length cs"
proof (induction cs arbitrary: s rule: parse_string_body.induct)
  case 1
  then show ?case by simp
next
  case (2 c cs)
  show ?case
  proof (cases "c = CHR 0x22")
    case True
    with "2.prems" show ?thesis by simp
  next
    case nq: False
    show ?thesis
    proof (cases "c = CHR 0x5C")
      case True
      with nq "2.prems" obtain e r0 where cs: "cs = e # r0" by (cases cs) auto
      show ?thesis
      proof (cases "e = CHR ''u''")
        case u: True
        with True nq cs "2.prems" obtain h1 h2 h3 h4 r' n where
          r0: "r0 = h1 # h2 # h3 # h4 # r'" and h: "hex4 h1 h2 h3 h4 = Some n"
          and p: "push_char (code_unit n) (parse_string_body r') = Some (s, r)"
          by (auto split: list.splits option.splits)
        from push_char_Some [OF p] obtain s' where "parse_string_body r' = Some (s', r)" ..
        from "2.IH"(1) [OF nq True cs u r0 refl refl refl h this] show ?thesis
          using cs r0 by simp
      next
        case nu: False
        with True nq cs "2.prems" obtain ch where
          e: "unescape e = Some ch" and p: "push_char (Some ch) (parse_string_body r0) = Some (s, r)"
          by (auto split: option.splits)
        from push_char_Some [OF p] obtain s' where "parse_string_body r0 = Some (s', r)" ..
        from "2.IH"(2) [OF nq True cs nu e this] show ?thesis using cs by simp
      qed
    next
      case False
      with nq "2.prems" have p: "push_char (Some c) (parse_string_body cs) = Some (s, r)"
        and lt: "\<not> (of_char c :: nat) < 32"
        by (auto split: if_splits)
      from push_char_Some [OF p] obtain s' where "parse_string_body cs = Some (s', r)" ..
      from "2.IH"(3) [OF nq False lt this] show ?thesis by simp
    qed
  qed
qed

lemma number_consumes: "parse_number cs = Some (v, r) \<Longrightarrow> length r < length cs"
proof -
  assume a: "parse_number cs = Some (v, r)"
  define ds where "ds = (if (case cs of [] \<Rightarrow> False | c # r \<Rightarrow> c = CHR ''-'') then tl cs else cs)"
  define r1 where "r1 = dropWhile is_digit ds"
  define r2 where "r2 =
    (if (case r1 of [] \<Rightarrow> False | c # r \<Rightarrow> c = CHR ''.'') then dropWhile is_digit (tl r1) else r1)"
  define r3 where "r3 =
    (if (case tl r2 of [] \<Rightarrow> False | c # r \<Rightarrow> c = CHR ''-'' \<or> c = CHR ''+'') then tl (tl r2) else tl r2)"
  from a have ne: "takeWhile is_digit ds \<noteq> []"
    unfolding ds_def by (auto simp: parse_number_def Let_def split: if_splits)
  from a have r: "r = dropWhile is_digit r3 \<or> r = r2"
    unfolding ds_def r1_def r2_def r3_def by (auto simp: parse_number_def Let_def split: if_splits)
  have l3: "length r3 \<le> length r2" unfolding r3_def by simp
  have "length (dropWhile is_digit r3) \<le> length r3" by (rule length_dropWhile_le)
  with l3 r have lr: "length r \<le> length r2" by auto
  have "length (dropWhile is_digit (tl r1)) \<le> length (tl r1)" by (rule length_dropWhile_le)
  then have "length (dropWhile is_digit (tl r1)) \<le> length r1" by simp
  then have l2: "length r2 \<le> length r1" unfolding r2_def by simp
  have len: "length ds \<le> length cs" unfolding ds_def by simp
  have "length (takeWhile is_digit ds) + length (dropWhile is_digit ds) = length ds"
    by (metis length_append takeWhile_dropWhile_id)
  moreover from ne have "0 < length (takeWhile is_digit ds)" by simp
  ultimately have "length r1 < length cs" unfolding r1_def using len by linarith
  with lr l2 show ?thesis by linarith
qed

text \<open>
  A value found with some fuel is found with every fuel of at least twice the number of
  characters read, less one; for an element list and a member list twice the number,
  less two, is enough.
\<close>

lemma fuel_adequate:
  "(parse_value m cs = Some (v, r) \<longrightarrow>
      length r < length cs \<and> (\<forall>n. 2 * (length cs - length r) \<le> n + 1 \<longrightarrow> parse_value n cs = Some (v, r)))
   \<and> (parse_elements m acc cs = Some (v, r) \<longrightarrow>
      length r < length cs \<and> (\<forall>n. 2 * (length cs - length r) \<le> n + 2 \<longrightarrow> parse_elements n acc cs = Some (v, r)))
   \<and> (parse_members m macc cs = Some (v, r) \<longrightarrow>
      length r < length cs \<and> (\<forall>n. 2 * (length cs - length r) \<le> n + 2 \<longrightarrow> parse_members n macc cs = Some (v, r)))"
proof (induction m arbitrary: cs v r acc macc)
  case 0
  show ?case by simp
next
  case (Suc m)
  have IHv: "\<And>cs v r. parse_value m cs = Some (v, r) \<Longrightarrow>
      length r < length cs \<and> (\<forall>n. 2 * (length cs - length r) \<le> n + 1 \<longrightarrow> parse_value n cs = Some (v, r))"
    using Suc.IH by blast
  have IHe: "\<And>cs v r acc. parse_elements m acc cs = Some (v, r) \<Longrightarrow>
      length r < length cs \<and> (\<forall>n. 2 * (length cs - length r) \<le> n + 2 \<longrightarrow> parse_elements n acc cs = Some (v, r))"
    using Suc.IH by blast
  have IHm: "\<And>cs v r macc. parse_members m macc cs = Some (v, r) \<Longrightarrow>
      length r < length cs \<and> (\<forall>n. 2 * (length cs - length r) \<le> n + 2 \<longrightarrow> parse_members n macc cs = Some (v, r))"
    using Suc.IH by blast
  have V: "parse_value (Suc m) cs = Some (v, r) \<longrightarrow>
      length r < length cs \<and> (\<forall>n. 2 * (length cs - length r) \<le> n + 1 \<longrightarrow> parse_value n cs = Some (v, r))"
  proof (intro impI)
    assume a: "parse_value (Suc m) cs = Some (v, r)"
    then obtain c t where sk: "skip_ws cs = c # t" by (cases "skip_ws cs") auto
    have lt: "length t < length cs" using sk by (rule skip_ws_Cons)
    show "length r < length cs \<and> (\<forall>n. 2 * (length cs - length r) \<le> n + 1 \<longrightarrow> parse_value n cs = Some (v, r))"
    proof (cases "c = CHR ''{''")
      case True
      show ?thesis
      proof (cases "skip_ws t")
        case Nil
        with a sk True show ?thesis by simp
      next
        case (Cons c' t')
        show ?thesis
        proof (cases "c' = CHR ''}''")
          case cl: True
          with a sk True Cons have v: "v = Some (Obj [])" and r: "r = t'" by simp_all
          have lr: "length r < length t" using Cons r skip_ws_Cons by blast
          have "\<And>n. 2 * (length cs - length r) \<le> n + 1 \<Longrightarrow> parse_value n cs = Some (v, r)"
          proof -
            fix n assume "2 * (length cs - length r) \<le> n + 1"
            then obtain k where "n = Suc k" using lt lr by (cases n) auto
            then show "parse_value n cs = Some (v, r)" using sk True Cons cl v r by simp
          qed
          with lt lr show ?thesis by auto
        next
          case ncl: False
          with a sk True Cons have p: "parse_members m (Some []) t = Some (v, r)" by simp
          from IHm [OF p] have lr: "length r < length t"
            and en: "\<And>n. 2 * (length t - length r) \<le> n + 2 \<Longrightarrow> parse_members n (Some []) t = Some (v, r)"
            by auto
          have "\<And>n. 2 * (length cs - length r) \<le> n + 1 \<Longrightarrow> parse_value n cs = Some (v, r)"
          proof -
            fix n assume b: "2 * (length cs - length r) \<le> n + 1"
            then obtain k where k: "n = Suc k" using lt lr by (cases n) auto
            with b lt lr have "2 * (length t - length r) \<le> k + 2" by linarith
            from en [OF this] show "parse_value n cs = Some (v, r)" using k sk True Cons ncl by simp
          qed
          with lt lr show ?thesis by auto
        qed
      qed
    next
      case nb: False
      show ?thesis
      proof (cases "c = CHR ''[''")
        case True
        show ?thesis
        proof (cases "skip_ws t")
          case Nil
          with a sk True nb show ?thesis by simp
        next
          case (Cons c' t')
          show ?thesis
          proof (cases "c' = CHR '']''")
            case cl: True
            with a sk True Cons have v: "v = Some (Arr [])" and r: "r = t'" by simp_all
            have lr: "length r < length t" using Cons r skip_ws_Cons by blast
            have "\<And>n. 2 * (length cs - length r) \<le> n + 1 \<Longrightarrow> parse_value n cs = Some (v, r)"
            proof -
              fix n assume "2 * (length cs - length r) \<le> n + 1"
              then obtain k where "n = Suc k" using lt lr by (cases n) auto
              then show "parse_value n cs = Some (v, r)" using sk True Cons cl v r by simp
            qed
            with lt lr show ?thesis by auto
          next
            case ncl: False
            with a sk True Cons have p: "parse_elements m (Some []) t = Some (v, r)" by simp
            from IHe [OF p] have lr: "length r < length t"
              and en: "\<And>n. 2 * (length t - length r) \<le> n + 2 \<Longrightarrow> parse_elements n (Some []) t = Some (v, r)"
              by auto
            have "\<And>n. 2 * (length cs - length r) \<le> n + 1 \<Longrightarrow> parse_value n cs = Some (v, r)"
            proof -
              fix n assume b: "2 * (length cs - length r) \<le> n + 1"
              then obtain k where k: "n = Suc k" using lt lr by (cases n) auto
              with b lt lr have "2 * (length t - length r) \<le> k + 2" by linarith
              from en [OF this] show "parse_value n cs = Some (v, r)" using k sk True Cons ncl by simp
            qed
            with lt lr show ?thesis by auto
          qed
        qed
      next
        case na: False
        define leaf where "leaf =
          (if c = CHR 0x22 then
            (case parse_string_body t of None \<Rightarrow> None | Some (s, r') \<Rightarrow> Some (map_option Str s, r'))
          else if take 4 (c # t) = ''true'' then Some (Some (Bool True), drop 4 (c # t))
          else if take 5 (c # t) = ''false'' then Some (Some (Bool False), drop 5 (c # t))
          else if take 4 (c # t) = ''null'' then Some (Some Null, drop 4 (c # t))
          else (case parse_number (c # t) of None \<Rightarrow> None | Some (v, r') \<Rightarrow> Some (Some v, r')))"
        have step: "\<And>k. parse_value (Suc k) cs = leaf"
          using sk nb na by (simp add: leaf_def)
        from a step have l: "leaf = Some (v, r)" by simp
        have "length r < length (c # t)"
        proof (cases "c = CHR 0x22")
          case True
          with l obtain s where "parse_string_body t = Some (s, r)"
            by (auto simp: leaf_def split: option.splits)
          from string_body_consumes [OF this] show ?thesis by simp
        next
          case False
          with l show ?thesis
            by (auto simp: leaf_def split: if_splits option.splits dest: number_consumes)
        qed
        then have lr: "length r < length cs" using lt by simp
        have "\<And>n. 2 * (length cs - length r) \<le> n + 1 \<Longrightarrow> parse_value n cs = Some (v, r)"
        proof -
          fix n assume b: "2 * (length cs - length r) \<le> n + 1"
          then obtain k where k: "n = Suc k" using lr by (cases n) auto
          then show "parse_value n cs = Some (v, r)" using step l by simp
        qed
        with lr show ?thesis by auto
      qed
    qed
  qed
  have E: "parse_elements (Suc m) acc cs = Some (v, r) \<longrightarrow>
      length r < length cs \<and> (\<forall>n. 2 * (length cs - length r) \<le> n + 2 \<longrightarrow> parse_elements n acc cs = Some (v, r))"
  proof (intro impI)
    assume a: "parse_elements (Suc m) acc cs = Some (v, r)"
    then obtain v1 r1 c t where pv: "parse_value m cs = Some (v1, r1)" and sk: "skip_ws r1 = c # t"
      and alt: "(c = CHR '','' \<and> parse_elements m (add_element acc v1) t = Some (v, r))
                \<or> (c \<noteq> CHR '','' \<and> c = CHR '']'' \<and> v = map_option Arr (add_element acc v1) \<and> r = t)"
      by (auto split: option.splits list.splits if_splits)
    from IHv [OF pv] have l1: "length r1 < length cs"
      and e1: "\<And>n. 2 * (length cs - length r1) \<le> n + 1 \<Longrightarrow> parse_value n cs = Some (v1, r1)"
      by auto
    have lt: "length t < length r1" using sk by (rule skip_ws_Cons)
    from alt show "length r < length cs \<and> (\<forall>n. 2 * (length cs - length r) \<le> n + 2 \<longrightarrow> parse_elements n acc cs = Some (v, r))"
    proof
      assume c: "c = CHR '','' \<and> parse_elements m (add_element acc v1) t = Some (v, r)"
      from IHe [OF c [THEN conjunct2]] have lr: "length r < length t"
        and e2: "\<And>n. 2 * (length t - length r) \<le> n + 2 \<Longrightarrow> parse_elements n (add_element acc v1) t = Some (v, r)"
        by auto
      have "\<And>n. 2 * (length cs - length r) \<le> n + 2 \<Longrightarrow> parse_elements n acc cs = Some (v, r)"
      proof -
        fix n assume b: "2 * (length cs - length r) \<le> n + 2"
        then obtain k where k: "n = Suc k" using l1 lt lr by (cases n) auto
        from b k l1 lt lr have "2 * (length cs - length r1) \<le> k + 1" by linarith
        from e1 [OF this] have p1: "parse_value k cs = Some (v1, r1)" .
        from b k l1 lt lr have "2 * (length t - length r) \<le> k + 2" by linarith
        from e2 [OF this] have p2: "parse_elements k (add_element acc v1) t = Some (v, r)" .
        show "parse_elements n acc cs = Some (v, r)" using k p1 p2 sk c by simp
      qed
      with l1 lt lr show ?thesis by auto
    next
      assume c: "c \<noteq> CHR '','' \<and> c = CHR '']'' \<and> v = map_option Arr (add_element acc v1) \<and> r = t"
      have "\<And>n. 2 * (length cs - length r) \<le> n + 2 \<Longrightarrow> parse_elements n acc cs = Some (v, r)"
      proof -
        fix n assume b: "2 * (length cs - length r) \<le> n + 2"
        have lr: "length r < length r1" using lt c by simp
        from b obtain k where k: "n = Suc k" using l1 lr by (cases n) auto
        from b k l1 lr have "2 * (length cs - length r1) \<le> k + 1" by linarith
        from e1 [OF this] have p1: "parse_value k cs = Some (v1, r1)" .
        show "parse_elements n acc cs = Some (v, r)" using k p1 sk c by simp
      qed
      with l1 lt c show ?thesis by auto
    qed
  qed
  have M: "parse_members (Suc m) macc cs = Some (v, r) \<longrightarrow>
      length r < length cs \<and> (\<forall>n. 2 * (length cs - length r) \<le> n + 2 \<longrightarrow> parse_members n macc cs = Some (v, r))"
  proof (intro impI)
    assume a: "parse_members (Suc m) macc cs = Some (v, r)"
    then obtain q t where sk0: "skip_ws cs = q # t" and q: "q = CHR 0x22"
      by (cases "skip_ws cs") (auto split: if_splits)
    with a obtain key r1 where ps: "parse_string_body t = Some (key, r1)"
      by (cases "parse_string_body t") auto
    with a sk0 q obtain c1 r2 where sk1: "skip_ws r1 = c1 # r2" and c1: "c1 = CHR '':''"
      by (cases "skip_ws r1") (auto split: if_splits)
    with a sk0 q ps obtain v1 r3 where pv: "parse_value m r2 = Some (v1, r3)"
      by (cases "parse_value m r2") auto
    with a sk0 q ps sk1 c1 obtain c3 r4 where sk3: "skip_ws r3 = c3 # r4"
      by (cases "skip_ws r3") auto
    with a sk0 q ps sk1 c1 pv have alt:
      "(c3 = CHR '','' \<and> parse_members m (add_member macc key v1) r4 = Some (v, r))
       \<or> (c3 \<noteq> CHR '','' \<and> c3 = CHR ''}'' \<and> v = map_option Obj (add_member macc key v1) \<and> r = r4)"
      by (auto split: if_splits)
    have l0: "length t < length cs" using sk0 by (rule skip_ws_Cons)
    have l1: "length r1 < length t" using ps by (rule string_body_consumes)
    have l2: "length r2 < length r1" using sk1 by (rule skip_ws_Cons)
    from IHv [OF pv] have l3: "length r3 < length r2"
      and e1: "\<And>n. 2 * (length r2 - length r3) \<le> n + 1 \<Longrightarrow> parse_value n r2 = Some (v1, r3)"
      by auto
    have l4: "length r4 < length r3" using sk3 by (rule skip_ws_Cons)
    from alt show "length r < length cs \<and> (\<forall>n. 2 * (length cs - length r) \<le> n + 2 \<longrightarrow> parse_members n macc cs = Some (v, r))"
    proof
      assume c: "c3 = CHR '','' \<and> parse_members m (add_member macc key v1) r4 = Some (v, r)"
      from IHm [OF c [THEN conjunct2]] have lr: "length r < length r4"
        and e2: "\<And>n. 2 * (length r4 - length r) \<le> n + 2 \<Longrightarrow> parse_members n (add_member macc key v1) r4 = Some (v, r)"
        by auto
      have "\<And>n. 2 * (length cs - length r) \<le> n + 2 \<Longrightarrow> parse_members n macc cs = Some (v, r)"
      proof -
        fix n assume b: "2 * (length cs - length r) \<le> n + 2"
        then obtain k where k: "n = Suc k" using l0 l1 l2 l3 l4 lr by (cases n) auto
        from b k l0 l1 l2 l3 l4 lr have "2 * (length r2 - length r3) \<le> k + 1" by linarith
        from e1 [OF this] have p1: "parse_value k r2 = Some (v1, r3)" .
        from b k l0 l1 l2 l3 l4 lr have "2 * (length r4 - length r) \<le> k + 2" by linarith
        from e2 [OF this] have p2: "parse_members k (add_member macc key v1) r4 = Some (v, r)" .
        show "parse_members n macc cs = Some (v, r)" using k p1 p2 sk0 q ps sk1 c1 sk3 c by simp
      qed
      with l0 l1 l2 l3 l4 lr show ?thesis by auto
    next
      assume c: "c3 \<noteq> CHR '','' \<and> c3 = CHR ''}'' \<and> v = map_option Obj (add_member macc key v1) \<and> r = r4"
      have "\<And>n. 2 * (length cs - length r) \<le> n + 2 \<Longrightarrow> parse_members n macc cs = Some (v, r)"
      proof -
        fix n assume b: "2 * (length cs - length r) \<le> n + 2"
        have lr: "length r < length r3" using l4 c by simp
        from b obtain k where k: "n = Suc k" using l0 l1 l2 l3 lr by (cases n) auto
        from b k l0 l1 l2 l3 lr have "2 * (length r2 - length r3) \<le> k + 1" by linarith
        from e1 [OF this] have p1: "parse_value k r2 = Some (v1, r3)" .
        show "parse_members n macc cs = Some (v, r)" using k p1 sk0 q ps sk1 c1 sk3 c by simp
      qed
      with l0 l1 l2 l3 l4 c show ?thesis by auto
    qed
  qed
  from V E M show ?case by blast
qed

lemma JSON_parse_fuel:
  "parse_value m src = Some (v, r) \<Longrightarrow>
   parse_value (Suc (length src + length src)) src = Some (v, r)"
proof -
  assume a: "parse_value m src = Some (v, r)"
  from fuel_adequate [of m src v r] a
  have "\<forall>n. 2 * (length src - length r) \<le> n + 1 \<longrightarrow> parse_value n src = Some (v, r)"
    by blast
  moreover have "2 * (length src - length r) \<le> Suc (length src + length src) + 1" by simp
  ultimately show ?thesis by blast
qed

lemma JSON_parse_any_fuel:
  "(JSON_parse src = Value v \<longleftrightarrow> (\<exists>m r. parse_value m src = Some (Some v, r) \<and> skip_ws r = []))
   \<and> (JSON_parse src = Unrepresentable \<longleftrightarrow> (\<exists>m r. parse_value m src = Some (None, r) \<and> skip_ws r = []))"
proof -
  have fwd: "\<And>x. (case x of None \<Rightarrow> JSON_parse src = Unrepresentable | Some w \<Rightarrow> JSON_parse src = Value w)
      \<Longrightarrow> \<exists>m r. parse_value m src = Some (x, r) \<and> skip_ws r = []"
  proof -
    fix x
    assume a: "case x of None \<Rightarrow> JSON_parse src = Unrepresentable | Some w \<Rightarrow> JSON_parse src = Value w"
    then obtain r where "parse_value (Suc (length src + length src)) src = Some (x, r)"
      and "skip_ws r = []"
      unfolding JSON_parse_def
      by (cases "parse_value (Suc (length src + length src)) src"; cases x)
         (auto simp del: parse_value.simps split: if_splits option.splits)
    then show "\<exists>m r. parse_value m src = Some (x, r) \<and> skip_ws r = []" by blast
  qed
  have bwd: "\<And>x m r. parse_value m src = Some (x, r) \<Longrightarrow> skip_ws r = []
      \<Longrightarrow> (case x of None \<Rightarrow> JSON_parse src = Unrepresentable | Some w \<Rightarrow> JSON_parse src = Value w)"
  proof -
    fix x m r
    assume "parse_value m src = Some (x, r)" and r: "skip_ws r = []"
    from JSON_parse_fuel [OF this(1)] r
    show "case x of None \<Rightarrow> JSON_parse src = Unrepresentable | Some w \<Rightarrow> JSON_parse src = Value w"
      by (cases x) (simp_all add: JSON_parse_def del: parse_value.simps)
  qed
  from fwd [of "Some v"] fwd [of None] bwd [of _ "Some v"] bwd [of _ None] show ?thesis
    by auto
qed

text \<open>
  \<open>JSON.parse\<close> throws exactly when no amount of fuel lets the parser read the whole
  text.
\<close>

lemma JSON_parse_SyntaxError:
  "JSON_parse src = SyntaxError \<longleftrightarrow> \<not> (\<exists>m x r. parse_value m src = Some (x, r) \<and> skip_ws r = [])"
proof
  assume a: "JSON_parse src = SyntaxError"
  show "\<not> (\<exists>m x r. parse_value m src = Some (x, r) \<and> skip_ws r = [])"
  proof
    assume "\<exists>m x r. parse_value m src = Some (x, r) \<and> skip_ws r = []"
    then obtain m x r where "parse_value m src = Some (x, r)" and r: "skip_ws r = []" by blast
    from JSON_parse_fuel [OF this(1)] r a show False
      by (cases x) (simp_all add: JSON_parse_def del: parse_value.simps)
  qed
next
  assume a: "\<not> (\<exists>m x r. parse_value m src = Some (x, r) \<and> skip_ws r = [])"
  show "JSON_parse src = SyntaxError"
  proof (cases "parse_value (Suc (length src + length src)) src")
    case None
    then show ?thesis by (simp add: JSON_parse_def del: parse_value.simps)
  next
    case (Some xr)
    obtain x r where xr: "xr = (x, r)" by (cases xr)
    with Some a have "skip_ws r \<noteq> []" by blast
    with Some xr show ?thesis by (simp add: JSON_parse_def del: parse_value.simps)
  qed
qed

section \<open>Numbers and escapes in a JSON text\<close>

text \<open>
  Numbers are read as JavaScript reads them: an integer beyond \<open>2^53\<close> is rounded to
  the nearest double, an exponent is applied, a fraction that is an integer is that
  integer, and what overflows is an infinity. What the grammar of JSON does not allow is
  a syntax error.
\<close>

lemma JSON_numbers:
  "JSON_parse ''[9007199254740993, 1e21, -0.0, 1e2, 2.50, 1E400]''
   = Value (Arr [Num 9007199254740992, Flt ''1e+21'', Num 0, Num 100, Flt ''2.5'', Flt ''Infinity''])"
  by (simp add: json_eval number_eval double_eval)

lemma JSON_not_numbers:
  "JSON_parse ''1.'' = SyntaxError \<and> JSON_parse ''.5'' = SyntaxError
   \<and> JSON_parse ''01'' = SyntaxError \<and> JSON_parse ''1e'' = SyntaxError
   \<and> JSON_parse ''+1'' = SyntaxError \<and> JSON_parse ''-'' = SyntaxError
   \<and> JSON_parse ''1e+'' = SyntaxError"
  by (simp add: json_eval number_eval)

text \<open>
  Notes with a density of 1.24 are parsed, with the density as the number that prints as
  \<open>1.24\<close>; the filter keeps the preset as it is.
\<close>

lemma fraction_notes: "parseNotes scn_fraction =
   Obj [(''id'', Str ''10001''), (''vendor'', Str ''X''), (''type'', Str ''PLA''), (''name'', Str ''New''),
        (''density'', Flt ''1.24'')]"
  by (simp add: scn_fraction_def scn_fraction_entries_def notes_eval double_eval)



text \<open>
  Notes with the escape \<open>\u0100\<close> are JSON, so the filter keeps the preset as it is;
  the model has no value for them. The same escape in a text that is not JSON is a
  syntax error.
\<close>

lemma wide_text:
  \<open>JSON_parse (''{"id":"10001","name":"'' @ [CHR 0x5C] @ ''u0100"}'') = Unrepresentable\<close>
  by (simp add: json_eval number_eval)


lemma wide_outside: "\<not> notes_representable (Obj scn_wide_entries)"
  by (simp add: notes_representable_def scn_wide_entries_def notes_eval)

lemma wide_then_junk: \<open>JSON_parse (''["'' @ [CHR 0x5C] @ ''u0100" 1]'') = SyntaxError\<close>
  by (simp add: json_eval number_eval)

section \<open>The five-digit id and the FNV-1a hash\<close>

lemma is_digit_digit_char: "d < 10 \<Longrightarrow> is_digit (digit_char d)"
proof -
  assume "d < 10"
  then have "d \<in> {0, 1, 2, 3, 4, 5, 6, 7, 8, 9}" by auto
  then show ?thesis by (auto simp: is_digit_def digit_char_def char_eval)
qed

lemma dec_nat_digits: "list_all is_digit (dec_nat n)"
proof (induction n rule: dec_nat.induct)
  case (1 n)
  show ?case
  proof (cases "n < 10")
    case True
    then show ?thesis by (simp add: is_digit_digit_char)
  next
    case False
    with "1" show ?thesis by (simp add: is_digit_digit_char)
  qed
qed

lemma dec_nat_length5:
  assumes "10000 \<le> n" and "n \<le> 99999"
  shows "length (dec_nat n) = 5"
proof -
  have "10 \<le> n" "10 \<le> n div 10" "10 \<le> n div 10 div 10" "10 \<le> n div 10 div 10 div 10"
    "n div 10 div 10 div 10 div 10 < 10"
    using assms by auto
  then show ?thesis by simp
qed

text \<open>The loop keeps the bit pattern of the published hash in its number \<open>h\<close>.\<close>

lemma hash_round_word:
  "(word_of_int (hash_round h c) :: 32 word) = (word_of_int h XOR of_nat (of_char c)) * 16777619"
  by (simp add: hash_round_def imul_def xor32_def charCode_def)

lemma hash_fold_word:
  "word_of_int (foldl hash_round h str) =
     foldl (\<lambda>w c. (w XOR of_nat (of_char c)) * 16777619) (word_of_int h :: 32 word) str"
  by (induction str arbitrary: h) (simp_all add: hash_round_word)

lemma hash_loop_word: "word_of_int (hash_loop str) = fnv1a32 str"
  by (simp add: hash_loop_def fnv1a32_def hash_fold_word)

lemma hash_round_signed: "hash_round h c = sint (word_of_int (hash_round h c) :: 32 word)"
  by (simp add: hash_round_def imul_def)

lemma hash_loop_reading:
  "hash_loop str = (if str = [] then uint (fnv1a32 str) else sint (fnv1a32 str))"
proof (cases str rule: rev_cases)
  case Nil
  then show ?thesis by (simp add: hash_loop_def fnv1a32_def)
next
  case (snoc cs c)
  have "hash_loop str = hash_round (foldl hash_round 0x811c9dc5 cs) c"
    using snoc by (simp add: hash_loop_def)
  also have "\<dots> = sint (word_of_int (hash_round (foldl hash_round 0x811c9dc5 cs) c) :: 32 word)"
    by (rule hash_round_signed)
  also have "\<dots> = sint (word_of_int (hash_loop str) :: 32 word)"
    using snoc by (simp add: hash_loop_def)
  finally show ?thesis using snoc by (simp add: hash_loop_word)
qed

text \<open>
  Claim C4 as stated fails. The FNV-1a hash of the one-character string \<open>a\<close> is
  3826002220. Reduced modulo 90000 and offset by 10000 it gives 22220, and so gives
  34924 when it is read as the signed number -468965076; the code returns 75076.
\<close>

lemma fnv1a32_a: "fnv1a32 ''a'' = 3826002220"
  by (simp add: fnv1a32_def)

theorem id_is_not_the_hash_reduced:
  "stableFiveDigitId (Str ''a'') = ''75076''
   \<and> unat (fnv1a32 ''a'') = 3826002220
   \<and> dec_nat (unat (fnv1a32 ''a'') mod 90000 + 10000) = ''22220''
   \<and> sint (fnv1a32 ''a'') = - 468965076
   \<and> dec_int (sint (fnv1a32 ''a'') mod 90000 + 10000) = ''34924''"
proof -
  have a: "stableFiveDigitId (Str ''a'') = ''75076''"
    by (simp add: stableFiveDigitId_def hash_loop_def hash_round_def imul_def xor32_def charCode_def
        nullish_or_def dec_int_def digit_char_def char_eval)
  have b: "unat (fnv1a32 ''a'') = 3826002220" by (simp add: fnv1a32_a)
  have c: "dec_nat (unat (fnv1a32 ''a'') mod 90000 + 10000) = ''22220''"
    by (simp add: b digit_char_def char_eval)
  have d: "sint (fnv1a32 ''a'') = - 468965076" by (simp add: fnv1a32_a)
  have e: "dec_int (sint (fnv1a32 ''a'') mod 90000 + 10000) = ''34924''"
    by (simp add: d dec_int_def digit_char_def char_eval)
  from a b c d e show ?thesis by simp
qed

text \<open>
  Claim C4, as amended. For every input, \<open>stableFiveDigitId\<close> is the decimal numeral
  of \<open>|h| mod 90000 + 10000\<close>, where \<open>h\<close> is the 32-bit FNV-1a hash of the input's
  string as the loop's number holds it: the hash read as a signed 32-bit integer, or
  the offset basis itself for the empty string. The id depends on nothing but the
  input, lies between 10000 and 99999, and is a string of exactly five decimal digits.
\<close>

theorem stableFiveDigitId_fnv1a_five_digits:
  fixes s :: jsval
  defines "str \<equiv> js_String (nullish_or s (Str []))"
  defines "h \<equiv> (if str = [] then uint (fnv1a32 str) else sint (fnv1a32 str))"
  defines "n \<equiv> nat (\<bar>h\<bar> mod 90000 + 10000)"
  shows "stableFiveDigitId s = dec_nat n \<and> 10000 \<le> n \<and> n \<le> 99999 \<and>
         length (stableFiveDigitId s) = 5 \<and> list_all is_digit (stableFiveDigitId s)"
proof -
  have n: "10000 \<le> n" "n \<le> 99999" unfolding n_def by auto
  have "stableFiveDigitId s = dec_int (\<bar>h\<bar> mod 90000 + 10000)"
    unfolding stableFiveDigitId_def h_def str_def by (simp add: Let_def hash_loop_reading)
  also have "\<dots> = dec_nat n" unfolding n_def dec_int_def by simp
  finally have eq: "stableFiveDigitId s = dec_nat n" .
  show ?thesis
    using n eq by (simp add: dec_nat_length5 dec_nat_digits del: dec_nat_small dec_nat_large)
qed

section \<open>Objects and the first matching entry\<close>

lemma obj_get_set [simp]: "obj_get (obj_set kvs k v) k' = (if k' = k then v else obj_get kvs k')"
  by (induction kvs) auto

lemma keys_obj_set [simp]: "fst ` set (obj_set kvs k v) = insert k (fst ` set kvs)"
  by (induction kvs k v rule: obj_set.induct) (simp_all add: insert_commute)


lemma obj_set_twice [simp]: "obj_set (obj_set kvs k v) k w = obj_set kvs k w"
  by (induction kvs) auto

lemma findIndex_conv:
  "findIndex P xs = (if \<exists>x\<in>set xs. P x then int (length (takeWhile (\<lambda>x. \<not> P x) xs)) else - 1)"
  by (induction xs) (auto simp: Let_def)

lemma entry_id_material [simp]:
  "entry_id (buildMaterialFromProfile tmpl p n) = js_String (prop_get n ''id'')"
  unfolding buildMaterialFromProfile_def entry_id_def Let_def
  by (simp add: nullish_or_def)

lemma first_index_less: "x \<in> entry_id ` set l \<Longrightarrow> first_index x l < length l"
  unfolding first_index_def by (induction l) auto

lemma first_index_hit: "x \<in> entry_id ` set l \<Longrightarrow> entry_id (l ! first_index x l) = x"
  unfolding first_index_def by (induction l) auto

lemma first_index_before: "j < first_index x l \<Longrightarrow> entry_id (l ! j) \<noteq> x"
  unfolding first_index_def
proof (induction l arbitrary: j)
  case Nil
  then show ?case by simp
next
  case (Cons a l)
  then show ?case by (cases j) (auto split: if_splits)
qed

lemma findById_conv:
  "findById l (Str x) = (if x \<in> entry_id ` set l then int (first_index x l) else - 1)"
  by (auto simp: findById_def findIndex_conv first_index_def)

lemma db_step_list:
  "db_list (db_step tmpl st p) = (if db_skips p then db_list st else upsert (db_list st) (db_op tmpl p))"
  by (simp add: db_step_def upsert_def db_op_def Let_def findById_conv)

lemma db_fold_list:
  "db_list (foldl (db_step tmpl) st ps) = foldl upsert (db_list st) (db_ops tmpl ps)"
  by (induction ps arbitrary: st) (simp_all add: db_ops_def db_step_list)

lemma db_loop_list: "db_list (db_loop tmpl l ps) = foldl upsert l (db_ops tmpl ps)"
  by (simp add: db_loop_def db_fold_list)












section \<open>The database document\<close>

lemma getList_Inr:
  "getList dbObj = Inr l \<longleftrightarrow> prop_get (prop_get dbObj ''result'') ''list'' = Arr l"
  by (simp add: getList_def split: jsval.splits)

lemma getList_shape:
  assumes "getList dbObj = Inr l"
  obtains kvs res where "dbObj = Obj kvs" and "obj_get kvs ''result'' = Obj res"
    and "obj_get res ''list'' = Arr l"
proof -
  from assms have a: "prop_get (prop_get dbObj ''result'') ''list'' = Arr l"
    by (simp add: getList_Inr)
  then obtain kvs where k: "dbObj = Obj kvs" by (cases dbObj) simp_all
  with a obtain res where r: "obj_get kvs ''result'' = Obj res"
    by (cases "obj_get kvs ''result''") simp_all
  with a k have "obj_get res ''list'' = Arr l" by simp
  with k r show ?thesis by (rule that)
qed

lemma addToDatabase_Inr:
  assumes "getList dbObj = Inr l"
  shows "\<exists>kvs res. dbObj = Obj kvs \<and> obj_get kvs ''result'' = Obj res \<and>
     addToDatabase t tmpl dbObj ps =
       Inr (Obj (obj_set kvs ''result''
         (Obj (obj_set (obj_set (obj_set res ''list'' (Arr (foldl upsert l (db_ops tmpl ps))))
                 ''count'' (Num (int (length (foldl upsert l (db_ops tmpl ps))))))
                 ''version'' (Str (nowEpochSeconds t))))))"
proof -
  from assms obtain kvs res where s: "dbObj = Obj kvs" "obj_get kvs ''result'' = Obj res"
    "obj_get res ''list'' = Arr l" by (rule getList_shape)
  then show ?thesis
    using assms by (simp add: addToDatabase_def Let_def db_loop_list)
qed




section \<open>Reconciliation: scenario, idempotence, frame, shape error, matching\<close>

lemma scn_notes: \<open>parseNotes scn_preset =
   Obj [(''id'', Str ''10001''), (''vendor'', Str ''X''), (''type'', Str ''PLA''), (''name'', Str ''New'')]\<close>
  by (simp add: scn_preset_def notes_eval)

lemma scn_material: \<open>buildMaterialFromProfile scn_template scn_preset (parseNotes scn_preset) =
   Obj [(''nozzle_temperature'', Arr [Str ''200'']), (''name'', Arr [Str ''New'']),
     (''filament_notes'', Arr [Str ''{"id":"10001","vendor":"X","type":"PLA","name":"New"}'']),
     (''id'', Arr [Str ''10001'']), (''filament_id'', Arr [Str ''10001'']),
     (''filament_vendor'', Arr [Str ''X'']), (''filament_type'', Arr [Str ''PLA'']),
     (''filament_settings_id'', Arr [Str ''New'']), (''from'', Arr [Str ''User'']),
     (''is_custom_defined'', Arr [Num 0])]\<close>
  unfolding scn_notes
  by (simp add: buildMaterialFromProfile_def scn_template_def scn_preset_def object_entries_def
      normalizeToArray_def js_or_def stringify_eval Let_def)

lemma scn_list: "getList scn_baseline =
    Inr [Obj [(''id'', Str ''10001''), (''name'', Arr [Str ''Old''])],
         Obj [(''id'', Arr [Num 30003]), (''name'', Arr [Str ''Keep''])]]"
  by (simp add: getList_def scn_baseline_def)

lemma scn_run: "addToDatabase 5000 scn_template scn_baseline [scn_preset] =
   Inr (Obj [(''result'', Obj [(''list'', Arr
      [buildMaterialFromProfile scn_template scn_preset (parseNotes scn_preset),
       Obj [(''id'', Arr [Num 30003]), (''name'', Arr [Str ''Keep''])]]),
     (''count'', Num 2), (''version'', Str ''5'')])])"
proof -
  have skip: "\<not> db_skips scn_preset" by (simp add: db_skips_def scn_notes)
  show ?thesis
    unfolding addToDatabase_def scn_list
    by (simp add: Let_def db_loop_def db_step_def skip findById_def entry_id_def nullish_or_def
        scn_notes scn_baseline_def nowEpochSeconds_def dec_int_def digit_char_def char_eval)
qed


text \<open>
  The preset whose Notes hold a density as well is not skipped: its material, which is
  that of the preset without the density, replaces the entry of id 10001.
\<close>

lemma fraction_material:
  "buildMaterialFromProfile scn_template scn_fraction (parseNotes scn_fraction)
   = buildMaterialFromProfile scn_template scn_preset (parseNotes scn_preset)"
  unfolding scn_notes fraction_notes
  by (simp add: buildMaterialFromProfile_def scn_template_def scn_preset_def scn_fraction_def
      scn_fraction_entries_def object_entries_def normalizeToArray_def js_or_def Let_def)







text \<open>
  Claim C8. \<open>addToDatabase\<close> ends with the error of \<open>getList\<close>, and writes no
  document, exactly when the value at \<open>result.list\<close> of the baseline is not an array;
  when it is an array a document is written, and no other error arises.
\<close>

theorem addToDatabase_fatal_iff_not_list:
  "(addToDatabase t tmpl dbObj ps = Inl UnexpectedShape
      \<longleftrightarrow> \<not> isArray (prop_get (prop_get dbObj ''result'') ''list''))
   \<and> ((\<exists>doc. addToDatabase t tmpl dbObj ps = Inr doc)
      \<longleftrightarrow> isArray (prop_get (prop_get dbObj ''result'') ''list''))
   \<and> (\<forall>e. addToDatabase t tmpl dbObj ps = Inl e \<longrightarrow> e = UnexpectedShape)"
proof (cases "prop_get (prop_get dbObj ''result'') ''list''")
  case (Arr l)
  then have "getList dbObj = Inr l" by (simp add: getList_def)
  from addToDatabase_Inr [OF this, of t tmpl ps] Arr show ?thesis by auto
qed (simp_all add: addToDatabase_def getList_def)

theorem addToDatabase_fatal_iff_not_list_witness:
  "addToDatabase 5000 scn_template (Obj [(''result'', Obj [(''list'', Obj [])])]) [scn_preset]
      = Inl UnexpectedShape
   \<and> addToDatabase 5000 scn_template (Obj [(''result'', Null)]) [scn_preset] = Inl UnexpectedShape
   \<and> addToDatabase 5000 scn_template Null [scn_preset] = Inl UnexpectedShape
   \<and> (\<exists>doc. addToDatabase 5000 scn_template scn_baseline [scn_preset] = Inr doc)"
  using addToDatabase_fatal_iff_not_list [of 5000 scn_template "Obj [(''result'', Obj [(''list'', Obj [])])]" "[scn_preset]"]
    addToDatabase_fatal_iff_not_list [of 5000 scn_template "Obj [(''result'', Null)]" "[scn_preset]"]
    addToDatabase_fatal_iff_not_list [of 5000 scn_template Null "[scn_preset]"]
    addToDatabase_fatal_iff_not_list [of 5000 scn_template scn_baseline "[scn_preset]"]
  by (simp add: scn_baseline_def)

text \<open>
  Claim C10. \<open>findById\<close> compares the string of the wanted id with the id string of
  each entry, which is the string of the first element when the entry's id is an array
  and of the id itself otherwise, so the number 10001 and the string \<open>"10001"\<close> match.
  An entry without an id has the empty id string and is never found for a non-empty
  id. The index returned is that of the first matching entry, \<open>-1\<close> when there is
  none, and the loop replaces the entry at that index.
\<close>

theorem findById_normalizes_and_takes_first:
  "(findById l ident < 0 \<longleftrightarrow> (\<forall>m\<in>set l. entry_id m \<noteq> js_String ident))
   \<and> (0 \<le> findById l ident \<longrightarrow>
        nat (findById l ident) < length l
        \<and> entry_id (l ! nat (findById l ident)) = js_String ident
        \<and> (\<forall>j<nat (findById l ident). entry_id (l ! j) \<noteq> js_String ident))
   \<and> (prop_get m ''id'' = Arr (v # vs) \<and> \<not> nullish v \<longrightarrow> entry_id m = js_String v)
   \<and> (\<not> isArray (prop_get m ''id'') \<and> \<not> nullish (prop_get m ''id'')
        \<longrightarrow> entry_id m = js_String (prop_get m ''id''))
   \<and> entry_id (Obj [(''id'', Num 10001)]) = js_String (Str ''10001'')
   \<and> (prop_get m ''id'' = Undefined \<longrightarrow> entry_id m = [])
   \<and> (x \<noteq> [] \<and> 0 \<le> findById l (Str x) \<longrightarrow> prop_get (l ! nat (findById l (Str x))) ''id'' \<noteq> Undefined)
   \<and> (\<not> db_skips p \<and> 0 \<le> findById (db_list st) (Str (js_String (prop_get (parseNotes p) ''id'')))
        \<longrightarrow> db_list (db_step tmpl st p) =
            (db_list st)[nat (findById (db_list st) (Str (js_String (prop_get (parseNotes p) ''id'')))) :=
               buildMaterialFromProfile tmpl p (parseNotes p)])"
proof -
  have conv: "\<And>x. findById l x = (if js_String x \<in> entry_id ` set l then int (first_index (js_String x) l) else - 1)"
    unfolding findById_def findIndex_conv first_index_def by (auto intro: rev_image_eqI)
  have a: "findById l ident < 0 \<longleftrightarrow> (\<forall>m\<in>set l. entry_id m \<noteq> js_String ident)"
    by (auto simp: conv image_iff)
  have b: "0 \<le> findById l ident \<longrightarrow>
        nat (findById l ident) < length l
        \<and> entry_id (l ! nat (findById l ident)) = js_String ident
        \<and> (\<forall>j<nat (findById l ident). entry_id (l ! j) \<noteq> js_String ident)"
    by (auto simp: conv first_index_less first_index_hit first_index_before)
  have c: "prop_get m ''id'' = Arr (v # vs) \<and> \<not> nullish v \<longrightarrow> entry_id m = js_String v"
    by (simp add: entry_id_def nullish_or_def)
  have d: "\<not> isArray (prop_get m ''id'') \<and> \<not> nullish (prop_get m ''id'')
        \<longrightarrow> entry_id m = js_String (prop_get m ''id'')"
    by (cases "prop_get m ''id''") (simp_all add: entry_id_def nullish_or_def)
  have e: "entry_id (Obj [(''id'', Num 10001)]) = js_String (Str ''10001'')"
    by (simp add: entry_id_def nullish_or_def dec_int_def digit_char_def char_eval)
  have f: "prop_get m ''id'' = Undefined \<longrightarrow> entry_id m = []"
    by (simp add: entry_id_def nullish_or_def)
  have g: "x \<noteq> [] \<and> 0 \<le> findById l (Str x) \<longrightarrow> prop_get (l ! nat (findById l (Str x))) ''id'' \<noteq> Undefined"
  proof (intro impI, elim conjE)
    assume x: "x \<noteq> []" and i: "0 \<le> findById l (Str x)"
    then have "entry_id (l ! nat (findById l (Str x))) = x"
      by (auto simp: conv first_index_hit split: if_splits)
    with x show "prop_get (l ! nat (findById l (Str x))) ''id'' \<noteq> Undefined"
      by (auto simp: entry_id_def nullish_or_def)
  qed
  have h: "\<not> db_skips p \<and> 0 \<le> findById (db_list st) (Str (js_String (prop_get (parseNotes p) ''id'')))
        \<longrightarrow> db_list (db_step tmpl st p) =
            (db_list st)[nat (findById (db_list st) (Str (js_String (prop_get (parseNotes p) ''id'')))) :=
               buildMaterialFromProfile tmpl p (parseNotes p)]"
    by (simp add: db_step_def Let_def)
  from a b c d e f g h show ?thesis by blast
qed

theorem findById_normalizes_and_takes_first_witness:
  "findById [Obj [(''name'', Arr [Str ''No id''])], Obj [(''id'', Num 10001)],
             Obj [(''id'', Arr [Str ''10001''])]] (Str ''10001'') = 1
   \<and> entry_id (Obj [(''id'', Num 10001)]) = ''10001''
   \<and> entry_id (Obj [(''name'', Arr [Str ''No id''])]) = []
   \<and> findById [Obj [(''name'', Arr [Str ''No id''])]] (Str ''10001'') = - 1"
proof -
  let ?l = "[Obj [(''name'', Arr [Str ''No id''])], Obj [(''id'', Num 10001)],
             Obj [(''id'', Arr [Str ''10001''])]]"
  have ev: "findById ?l (Str ''10001'') = 1"
    "findById [Obj [(''name'', Arr [Str ''No id''])]] (Str ''10001'') = - 1"
    by (simp_all add: findById_def entry_id_def nullish_or_def dec_int_def digit_char_def char_eval)
  from findById_normalizes_and_takes_first [of ?l "Str ''10001''" "Obj [(''name'', Arr [Str ''No id''])]"]
  show ?thesis by (simp add: ev)
qed

section \<open>Skip criteria of the two documents\<close>











section \<open>The profile filter\<close>

lemma acme_obj: "autoNotesObj scn_acme =
   [(''id'', Str ''31115''), (''vendor'', Str ''Acme''), (''type'', Str ''PETG''), (''name'', Str ''My PETG'')]"
proof -
  have t: "deriveTypeFromInherits (Str ''fdm_filament_petg'') = ''PETG''"
    by (simp add: deriveTypeFromInherits_def nullish_or_def toLowerCase_def lower_char_def
        is_type_char_def Let_def toUpperCase_def upper_char_def char_eval)
  have i: "stableFiveDigitId (Str ''Acme|PETG|My PETG'') = ''31115''"
    by (simp add: stableFiveDigitId_def hash_loop_def hash_round_def imul_def xor32_def charCode_def
        nullish_or_def dec_int_def digit_char_def char_eval)
  show ?thesis
    by (simp add: autoNotesObj_def scn_acme_def js_or_def t i Let_def)
qed












section \<open>The type derived from the inheritance reference\<close>

lemma match_exact:
  assumes "ty \<noteq> []" and "list_all is_type_char ty" and "rest = [] \<or> \<not> is_type_char (hd rest)"
  shows "match_fdm_filament (''fdm_filament_'' @ ty @ rest) = Some ty"
proof -
  have "takeWhile is_type_char (ty @ rest) = ty"
  proof (cases rest)
    case Nil
    with assms(2) show ?thesis by (simp add: list_all_iff)
  next
    case (Cons r rs)
    with assms(3) have "\<not> is_type_char r" by simp
    with Cons assms(2) show ?thesis by (simp add: list_all_iff takeWhile_tail)
  qed
  with assms(1) show ?thesis by simp
qed

lemma match_none: "\<not> sublist ''fdm_filament_'' s \<Longrightarrow> match_fdm_filament s = None"
proof (induction s)
  case Nil
  show ?case by simp
next
  case (Cons c cs)
  from Cons.prems have "\<not> (prefix ''fdm_filament_'' (c # cs) \<or> sublist ''fdm_filament_'' cs)"
    using sublist_Cons_right [of "''fdm_filament_''" c cs] by blast
  then have np: "\<not> prefix ''fdm_filament_'' (c # cs)" and ns: "\<not> sublist ''fdm_filament_'' cs"
    by blast+
  have "match_fdm_filament (c # cs) = match_fdm_filament cs"
    using np by (simp only: match_fdm_filament.simps simp_thms if_False)
  with Cons.IH [OF ns] show ?case by (simp only:)
qed

lemma match_nonempty: "match_fdm_filament s = Some g \<Longrightarrow> g \<noteq> []"
  by (induction s) (auto split: if_splits)

lemma toUpperCase_nonempty: "g \<noteq> [] \<Longrightarrow> toUpperCase g \<noteq> []"
  by (simp add: toUpperCase_def)

text \<open>
  Claim C6 as stated fails. The pattern has the fixed family \<open>fdm\<close>: an inheritance
  name of the shape \<open><family>_filament_<type>\<close> with another family gives no type, and
  the synthesized type is the sentinel.
\<close>

theorem derive_type_needs_fdm_family:
  "deriveTypeFromInherits (Str ''sla_filament_petg'') = []
   \<and> obj_get (autoNotesObj [(''name'', Str ''P''), (''filament_vendor'', Str ''Acme''),
         (''inherits'', Str ''sla_filament_petg'')]) ''type'' = Str ''CUSTOM''"
proof -
  have t: "deriveTypeFromInherits (Str ''sla_filament_petg'') = []"
    by (simp add: deriveTypeFromInherits_def nullish_or_def toLowerCase_def lower_char_def
        is_type_char_def Let_def toUpperCase_def upper_char_def char_eval)
  show ?thesis
    by (simp add: autoNotesObj_def js_or_def t Let_def)
qed

text \<open>
  Claim C6, as amended. When Notes are synthesized for a preset without a
  \<open>filament_type\<close> field, the type is found in the lower-cased inheritance name by the
  pattern \<open>fdm_filament_<type>\<close>, where \<open><type>\<close> is the longest run of lower-case
  letters, digits and underscores after the leftmost such place: it is that run in
  upper case, so a name that reads \<open>fdm_filament_<type>\<close> up to case, alone or followed
  by another character, gives \<open><type>\<close> in upper case (\<open>fdm_filament_petg\<close> gives
  \<open>PETG\<close>). It is \<open>CUSTOM\<close> when the pattern does not match, as for every name that
  does not contain \<open>fdm_filament_\<close>.
\<close>

theorem synthesized_type_from_fdm_pattern:
  fixes profile :: jsobj
  defines "s \<equiv> toLowerCase (js_String (nullish_or (unwrapFirst (obj_get profile ''inherits'')) (Str [])))"
  assumes "obj_get profile ''filament_type'' = Undefined"
  shows "obj_get (autoNotesObj profile) ''type''
           = (case match_fdm_filament s of Some g \<Rightarrow> Str (toUpperCase g) | None \<Rightarrow> Str ''CUSTOM'')
     \<and> (ty \<noteq> [] \<and> list_all is_type_char ty \<and> (rest = [] \<or> \<not> is_type_char (hd rest))
          \<and> s = ''fdm_filament_'' @ ty @ rest
          \<longrightarrow> obj_get (autoNotesObj profile) ''type'' = Str (toUpperCase ty))
     \<and> (\<not> sublist ''fdm_filament_'' s \<longrightarrow> obj_get (autoNotesObj profile) ''type'' = Str ''CUSTOM'')"
proof -
  have main: "obj_get (autoNotesObj profile) ''type''
           = (case match_fdm_filament s of Some g \<Rightarrow> Str (toUpperCase g) | None \<Rightarrow> Str ''CUSTOM'')"
  proof (cases "match_fdm_filament s")
    case None
    then show ?thesis
      using assms(2) by (simp add: autoNotesObj_def Let_def js_or_def deriveTypeFromInherits_def s_def)
  next
    case (Some g)
    then have "toUpperCase g \<noteq> []" by (simp add: match_nonempty toUpperCase_nonempty)
    with Some show ?thesis
      using assms(2) by (simp add: autoNotesObj_def Let_def js_or_def deriveTypeFromInherits_def s_def)
  qed
  have exact: "ty \<noteq> [] \<and> list_all is_type_char ty \<and> (rest = [] \<or> \<not> is_type_char (hd rest))
          \<and> s = ''fdm_filament_'' @ ty @ rest
          \<longrightarrow> obj_get (autoNotesObj profile) ''type'' = Str (toUpperCase ty)"
    using main match_exact [of ty rest] by auto
  have none: "\<not> sublist ''fdm_filament_'' s \<longrightarrow> obj_get (autoNotesObj profile) ''type'' = Str ''CUSTOM''"
    using main match_none [of s] by auto
  from main exact none show ?thesis by blast
qed

theorem synthesized_type_from_fdm_pattern_witness:
  "obj_get (autoNotesObj scn_acme) ''type'' = Str ''PETG''
   \<and> obj_get (autoNotesObj scn_acme) ''id'' = Str (stableFiveDigitId (Str ''Acme|PETG|My PETG''))
   \<and> obj_get (autoNotesObj [(''name'', Str ''P''), (''inherits'', Str ''Generic PLA'')]) ''type'' = Str ''CUSTOM''"
proof -
  have f: "obj_get scn_acme ''filament_type'' = Undefined" by (simp add: scn_acme_def)
  have s: "toLowerCase (js_String (nullish_or (unwrapFirst (obj_get scn_acme ''inherits'')) (Str [])))
      = ''fdm_filament_'' @ ''petg'' @ []"
    by (simp add: scn_acme_def nullish_or_def toLowerCase_def lower_char_def char_eval)
  have c: "''petg'' \<noteq> [] \<and> list_all is_type_char ''petg'' \<and> ([] = [] \<or> \<not> is_type_char (hd []))"
    by (simp add: is_type_char_def Let_def)
  have u: "toUpperCase ''petg'' = ''PETG''"
    by (simp add: toUpperCase_def upper_char_def char_eval)
  have i: "stableFiveDigitId (Str ''Acme|PETG|My PETG'') = ''31115''"
    by (simp add: stableFiveDigitId_def hash_loop_def hash_round_def imul_def xor32_def charCode_def
        nullish_or_def dec_int_def digit_char_def char_eval)
  let ?q = "[(''name'', Str ''P''), (''inherits'', Str ''Generic PLA'')]"
  have g: "toLowerCase (js_String (nullish_or (unwrapFirst (obj_get ?q ''inherits'')) (Str []))) = ''generic pla''"
    by (simp add: nullish_or_def toLowerCase_def lower_char_def char_eval)
  have n: "\<not> sublist ''fdm_filament_'' ''generic pla''"
    by (simp add: sublist_code)
  from synthesized_type_from_fdm_pattern [OF f, of "''petg''" "[]"]
    synthesized_type_from_fdm_pattern [of ?q]
  show ?thesis
    using s c u g n by (simp add: acme_obj i)
qed

section \<open>Classification of truncated presets\<close>

lemma looks_iff_spec: "looksLikeTruncatedUserPreset p \<longleftrightarrow> spec_truncated p"
proof (cases p)
  case (Obj kvs)
  then show ?thesis
    by (auto simp: looksLikeTruncatedUserPreset_def spec_truncated_def declares_reference_def
        user_authored_def key_count_def countKeys_def object_entries_def Let_def
        split: jsval.splits)
qed (simp_all add: looksLikeTruncatedUserPreset_def spec_truncated_def declares_reference_def)

text \<open>
  Claim C7. The test of the script holds of a preset exactly when the preset is
  truncated in the specification's words: \<open>inherits\<close> and \<open>base_id\<close> are strings,
  \<open>from\<close> reads \<open>user\<close>, and there are fewer than 120 keys. A preset that fails it is
  skipped and counted as such; one that passes is not skipped for this reason.
\<close>

theorem truncated_classification:
  "(looksLikeTruncatedUserPreset p \<longleftrightarrow> spec_truncated p)
   \<and> (\<not> spec_truncated p \<longrightarrow> expandPreset env (Loaded p) = (Skipped NotTruncated, 0))
   \<and> (spec_truncated p \<longrightarrow> fst (expandPreset env (Loaded p)) \<noteq> Skipped NotTruncated)"
proof -
  have a: "\<not> spec_truncated p \<longrightarrow> expandPreset env (Loaded p) = (Skipped NotTruncated, 0)"
    by (simp add: expandPreset_def looks_iff_spec)
  have b: "spec_truncated p \<longrightarrow> fst (expandPreset env (Loaded p)) \<noteq> Skipped NotTruncated"
    by (simp add: expandPreset_def looks_iff_spec Let_def split: lookup.splits prod.splits)
  from looks_iff_spec a b show ?thesis by blast
qed

lemma user_truncated: "spec_truncated scn_user"
  by (simp add: spec_truncated_def declares_reference_def user_authored_def key_count_def
      scn_user_def js_trim_def is_js_space_def toLowerCase_def lower_char_def char_eval)

lemma system_not_truncated: "\<not> spec_truncated scn_system"
  by (simp add: spec_truncated_def declares_reference_def user_authored_def key_count_def
      scn_system_def js_trim_def is_js_space_def toLowerCase_def lower_char_def char_eval)

theorem truncated_classification_witness:
  "looksLikeTruncatedUserPreset scn_user
   \<and> fst (expandPreset scn_env (Loaded scn_user)) \<noteq> Skipped NotTruncated
   \<and> \<not> looksLikeTruncatedUserPreset scn_system
   \<and> expandPreset scn_env (Loaded scn_system) = (Skipped NotTruncated, 0)"
  using truncated_classification [of scn_user scn_env] truncated_classification [of scn_system scn_env]
  by (simp add: user_truncated system_not_truncated)

section \<open>Merge precedence\<close>

lemma distinct_obj_set: "distinct (map fst kvs) \<Longrightarrow> distinct (map fst (obj_set kvs k v))"
proof (induction kvs k v rule: obj_set.induct)
  case (1 k v)
  show ?case by simp
next
  case (2 k' v' kvs k v)
  have "fst ` set (obj_set kvs k v) = insert k (fst ` set kvs)" by (rule keys_obj_set)
  with 2 show ?case by auto
qed

lemma distinct_normalize_entry:
  "distinct (map fst out) \<Longrightarrow> distinct (map fst (normalize_entry out kv))"
  by (cases kv) (simp add: normalize_entry_def distinct_obj_set)

lemma distinct_normalize_fold:
  "distinct (map fst out) \<Longrightarrow> distinct (map fst (foldl normalize_entry out es))"
  by (induction es arbitrary: out) (simp_all add: distinct_normalize_entry)

lemma distinct_normalizePresetValues: "distinct (map fst (normalizePresetValues p))"
  by (simp add: normalizePresetValues_def distinct_normalize_fold)

lemma object_assign_Cons:
  "object_assign t ((k, v) # s) = object_assign (obj_set t k v) s"
  by (simp add: object_assign_def)

lemma object_assign_Nil: "object_assign t [] = t"
  by (simp add: object_assign_def)

lemma object_assign_get:
  "distinct (map fst s) \<Longrightarrow>
   obj_get (object_assign t s) k = (if has_key s k then obj_get s k else obj_get t k)"
proof (induction s arbitrary: t)
  case Nil
  show ?case by (simp add: object_assign_Nil has_key_def)
next
  case (Cons kv s)
  obtain k' v' where kv: "kv = (k', v')" by (cases kv)
  from Cons.prems kv have d: "distinct (map fst s)" and fresh: "k' \<notin> fst ` set s" by auto
  have "obj_get (object_assign t (kv # s)) k
      = (if has_key s k then obj_get s k else obj_get (obj_set t k' v') k)"
    using Cons.IH [OF d, of "obj_set t k' v'"] kv by (simp add: object_assign_Cons)
  then show ?case using fresh kv by (auto simp: has_key_def)
qed

lemma object_assign_keys:
  "has_key (object_assign t s) k \<longleftrightarrow> has_key t k \<or> has_key s k"
proof (induction s arbitrary: t)
  case Nil
  show ?case by (simp add: object_assign_Nil has_key_def)
next
  case (Cons kv s)
  obtain k' v' where kv: "kv = (k', v')" by (cases kv)
  have "has_key (object_assign t (kv # s)) k \<longleftrightarrow> has_key (obj_set t k' v') k \<or> has_key s k"
    using Cons.IH [of "obj_set t k' v'"] kv by (simp add: object_assign_Cons)
  then show ?case using kv by (auto simp: has_key_def)
qed

lemma merge_layers_get:
  assumes "distinct (map fst rootN)" and "distinct (map fst baseN)" and "distinct (map fst userN)"
  shows "obj_get (merge_layers rootN baseN userN) k =
     (if has_key userN k then obj_get userN k
      else if has_key baseN k then obj_get baseN k else obj_get rootN k)"
proof -
  have "obj_get [] k = Undefined" by simp
  moreover have "\<not> has_key rootN k \<Longrightarrow> obj_get rootN k = Undefined"
    unfolding has_key_def by (induction rootN) auto
  ultimately show ?thesis
    using assms by (simp add: merge_layers_def object_assign_get)
qed

lemma merge_layers_keys:
  "has_key (merge_layers rootN baseN userN) k \<longleftrightarrow> has_key rootN k \<or> has_key baseN k \<or> has_key userN k"
  by (simp add: merge_layers_def object_assign_keys) (simp add: has_key_def)

lemma finishMerged_inherits:
  "truthy rootName \<Longrightarrow> obj_get (finishMerged env rootName merged) ''inherits'' = rootName"
  by (simp add: finishMerged_def Let_def)

lemma finishMerged_other:
  "k \<noteq> ''inherits'' \<Longrightarrow> k \<noteq> ''name'' \<Longrightarrow> obj_get (finishMerged env rootName merged) k = obj_get merged k"
  by (simp add: finishMerged_def Let_def)

lemma expandPreset_Built:
  assumes "expandPreset env (Loaded userPreset) = (Built out, w)"
  shows "\<exists>basePreset.
      findSystemPreset env (js_trim (js_String (prop_get userPreset ''inherits''))) = Loaded basePreset
      \<and> out = finishMerged env (rootNameOf basePreset)
            (merge_layers (normalizePresetValues (fst (loadRoot env (rootNameOf basePreset))))
               (normalizePresetValues basePreset) (normalizePresetValues userPreset))"
  using assms
  by (auto simp: expandPreset_def Let_def split: if_splits lookup.splits prod.splits)

text \<open>
  Claim C1. In the merge of the three normalized layers a key has the value of the user
  layer when it is present there, else that of the system layer when present there,
  else that of the root layer, and the merged keys are those of the three layers. After
  the merge \<open>inherits\<close> is the root template's name whenever the system preset named
  one, and apart from \<open>inherits\<close> and \<open>name\<close> the preset that is written is the
  merge. What \<open>expandPreset\<close> builds is this merge of the user preset, the system preset
  it names and that preset's root, finished in this way.
\<close>

theorem merge_precedence_and_root_inherits:
  fixes rootPreset basePreset userPreset :: jsval
  defines "rootN \<equiv> normalizePresetValues rootPreset"
  defines "baseN \<equiv> normalizePresetValues basePreset"
  defines "userN \<equiv> normalizePresetValues userPreset"
  defines "merged \<equiv> merge_layers rootN baseN userN"
  shows "(has_key userN k \<longrightarrow> obj_get merged k = obj_get userN k)
    \<and> (\<not> has_key userN k \<and> has_key baseN k \<longrightarrow> obj_get merged k = obj_get baseN k)
    \<and> (\<not> has_key userN k \<and> \<not> has_key baseN k \<longrightarrow> obj_get merged k = obj_get rootN k)
    \<and> (has_key merged k \<longleftrightarrow> has_key rootN k \<or> has_key baseN k \<or> has_key userN k)
    \<and> (truthy rootName \<longrightarrow> obj_get (finishMerged env rootName merged) ''inherits'' = rootName)
    \<and> (k \<noteq> ''inherits'' \<and> k \<noteq> ''name'' \<longrightarrow> obj_get (finishMerged env rootName merged) k = obj_get merged k)
    \<and> (expandPreset env (Loaded userPreset) = (Built out, w) \<longrightarrow>
         (\<exists>sys. findSystemPreset env (js_trim (js_String (prop_get userPreset ''inherits''))) = Loaded sys
            \<and> out = finishMerged env (rootNameOf sys)
                 (merge_layers (normalizePresetValues (fst (loadRoot env (rootNameOf sys))))
                    (normalizePresetValues sys) userN)
            \<and> (truthy (rootNameOf sys) \<longrightarrow> obj_get out ''inherits'' = rootNameOf sys)))"
proof -
  have g: "obj_get merged k =
     (if has_key userN k then obj_get userN k
      else if has_key baseN k then obj_get baseN k else obj_get rootN k)"
    unfolding merged_def rootN_def baseN_def userN_def
    by (rule merge_layers_get) (rule distinct_normalizePresetValues)+
  have ks: "has_key merged k \<longleftrightarrow> has_key rootN k \<or> has_key baseN k \<or> has_key userN k"
    unfolding merged_def by (rule merge_layers_keys)
  have b: "expandPreset env (Loaded userPreset) = (Built out, w) \<longrightarrow>
         (\<exists>sys. findSystemPreset env (js_trim (js_String (prop_get userPreset ''inherits''))) = Loaded sys
            \<and> out = finishMerged env (rootNameOf sys)
                 (merge_layers (normalizePresetValues (fst (loadRoot env (rootNameOf sys))))
                    (normalizePresetValues sys) userN)
            \<and> (truthy (rootNameOf sys) \<longrightarrow> obj_get out ''inherits'' = rootNameOf sys))"
    unfolding userN_def using expandPreset_Built [of env userPreset out w] finishMerged_inherits
    by blast
  from g ks b show ?thesis
    by (simp add: finishMerged_inherits finishMerged_other)
qed

lemma scn_expand: "expandPreset scn_env (Loaded scn_user) =
   (Built [(''name'', Str ''My PLA''), (''nozzle_temperature'', Arr [Str ''210'']),
           (''fan_speed'', Arr [Str ''80'']), (''bed_temperature'', Arr [Str ''60'']),
           (''inherits'', Str ''fdm_filament_pla''), (''from'', Str ''User''),
           (''base_id'', Str ''GFL99'')], 1)"
proof -
  have l: "looksLikeTruncatedUserPreset scn_user" by (simp add: looks_iff_spec user_truncated)
  have t: "js_trim ''Generic PLA'' = ''Generic PLA''" "js_trim ''fdm_filament_pla'' = ''fdm_filament_pla''"
    by (simp_all add: js_trim_def is_js_space_def)
  have r: "rootNameOf scn_system = Str ''fdm_filament_pla''"
    by (simp add: rootNameOf_def scn_system_def t)
  have n: "normalizePresetValues scn_root = [(''name'', Str ''fdm_filament_pla''),
        (''nozzle_temperature'', Arr [Str ''190'']), (''fan_speed'', Arr [Str ''100'']),
        (''bed_temperature'', Arr [Str ''60''])]"
     "normalizePresetValues scn_system = [(''inherits'', Str ''fdm_filament_pla''),
        (''name'', Str ''Generic PLA''), (''from'', Str ''system''),
        (''nozzle_temperature'', Arr [Str ''200'']), (''fan_speed'', Arr [Str ''80''])]"
     "normalizePresetValues scn_user = [(''from'', Str ''User''), (''inherits'', Str ''Generic PLA''),
        (''base_id'', Str ''GFL99''), (''name'', Str ''My PLA''),
        (''nozzle_temperature'', Arr [Str ''210''])]"
    by (simp_all add: normalizePresetValues_def normalize_entry_def object_entries_def js_or_def
        STRING_KEYS_def scn_root_def scn_system_def scn_user_def dec_int_def digit_char_def char_eval)
  show ?thesis
    by (simp add: expandPreset_def l scn_env_def findSystemPreset_def scn_user_def [THEN arg_cong, of "\<lambda>u. prop_get u ''inherits''"]
        t r loadRoot_def n merge_layers_def object_assign_def finishMerged_def Let_def)
qed

theorem merge_precedence_and_root_inherits_witness:
  "expandPreset scn_env (Loaded scn_user) =
     (Built [(''name'', Str ''My PLA''), (''nozzle_temperature'', Arr [Str ''210'']),
           (''fan_speed'', Arr [Str ''80'']), (''bed_temperature'', Arr [Str ''60'']),
           (''inherits'', Str ''fdm_filament_pla''), (''from'', Str ''User''),
           (''base_id'', Str ''GFL99'')], 1)
   \<and> obj_get (merge_layers (normalizePresetValues scn_root) (normalizePresetValues scn_system)
        (normalizePresetValues scn_user)) ''nozzle_temperature'' = Arr [Str ''210'']
   \<and> obj_get (merge_layers (normalizePresetValues scn_root) (normalizePresetValues scn_system)
        (normalizePresetValues scn_user)) ''fan_speed'' = Arr [Str ''80'']
   \<and> obj_get (merge_layers (normalizePresetValues scn_root) (normalizePresetValues scn_system)
        (normalizePresetValues scn_user)) ''inherits'' = Str ''Generic PLA''
   \<and> rootNameOf scn_system = Str ''fdm_filament_pla''"
proof -
  have n: "normalizePresetValues scn_root = [(''name'', Str ''fdm_filament_pla''),
        (''nozzle_temperature'', Arr [Str ''190'']), (''fan_speed'', Arr [Str ''100'']),
        (''bed_temperature'', Arr [Str ''60''])]"
     "normalizePresetValues scn_system = [(''inherits'', Str ''fdm_filament_pla''),
        (''name'', Str ''Generic PLA''), (''from'', Str ''system''),
        (''nozzle_temperature'', Arr [Str ''200'']), (''fan_speed'', Arr [Str ''80''])]"
     "normalizePresetValues scn_user = [(''from'', Str ''User''), (''inherits'', Str ''Generic PLA''),
        (''base_id'', Str ''GFL99''), (''name'', Str ''My PLA''),
        (''nozzle_temperature'', Arr [Str ''210''])]"
    by (simp_all add: normalizePresetValues_def normalize_entry_def object_entries_def js_or_def
        STRING_KEYS_def scn_root_def scn_system_def scn_user_def dec_int_def digit_char_def char_eval)
  have r: "rootNameOf scn_system = Str ''fdm_filament_pla''"
    by (simp add: rootNameOf_def scn_system_def js_trim_def is_js_space_def)
  from merge_precedence_and_root_inherits [where userPreset = scn_user and k = "''nozzle_temperature''"
        and basePreset = scn_system and rootPreset = scn_root and env = scn_env
        and rootName = "Str ''fdm_filament_pla''" and out = "[]" and w = 0]
    merge_precedence_and_root_inherits [where userPreset = scn_user and k = "''fan_speed''"
        and basePreset = scn_system and rootPreset = scn_root and env = scn_env
        and rootName = "Str ''fdm_filament_pla''" and out = "[]" and w = 0]
    merge_precedence_and_root_inherits [where userPreset = scn_user and k = "''inherits''"
        and basePreset = scn_system and rootPreset = scn_root and env = scn_env
        and rootName = "Str ''fdm_filament_pla''" and out = "[]" and w = 0]
  show ?thesis
    by (simp add: scn_expand r n has_key_def)
qed

end
